theory Spec2Isabelle
  imports Complex_Main
begin

section \<open>JavaScript numbers\<close>

text \<open>
  The values the getters of \<^verbatim>\<open>HoloPlayConfig.js\<close> compute with are JavaScript Numbers.
  The model keeps the special values of IEEE 754 that decide how the getters behave on
  degenerate input (\<open>NaN\<close>, the two infinities, the negative zero) and takes every other
  value as the real number it stands for: \<open>Fin 0\<close> is the positive zero, \<open>NegZero\<close> the
  negative one. Finite results are exact: rounding to 53 bits, overflow and underflow are
  not part of the model. The code and the model therefore compute the same where the
  doubles of the code are exact or their rounding cannot move a result across the
  integer that \<^verbatim>\<open>Math.ceil\<close>, \<^verbatim>\<open>Math.floor\<close> or \<^verbatim>\<open>Math.round\<close> decides on; the general
  statements about the sizes below are made for integers in a range where that is so.
\<close>

datatype jsnum = NaN | PInf | NInf | NegZero | Fin real

fun is_nan :: "jsnum \<Rightarrow> bool" where
  "is_nan NaN = True"
| "is_nan _ = False"

fun is_inf :: "jsnum \<Rightarrow> bool" where
  "is_inf PInf = True"
| "is_inf NInf = True"
| "is_inf _ = False"

text \<open>The real value of a finite number; both zeros have the value 0.\<close>

fun val :: "jsnum \<Rightarrow> real" where
  "val (Fin r) = r"
| "val _ = 0"

fun is_zero :: "jsnum \<Rightarrow> bool" where
  "is_zero NegZero = True"
| "is_zero (Fin r) = (r = 0)"
| "is_zero _ = False"

text \<open>The sign bit.\<close>

fun negative :: "jsnum \<Rightarrow> bool" where
  "negative NInf = True"
| "negative NegZero = True"
| "negative (Fin r) = (r < 0)"
| "negative _ = False"

definition signed_zero :: "bool \<Rightarrow> jsnum" where
  "signed_zero neg = (if neg then NegZero else Fin 0)"

definition signed_inf :: "bool \<Rightarrow> jsnum" where
  "signed_inf neg = (if neg then NInf else PInf)"

text \<open>A finite result \<open>r\<close> whose sign bit, when \<open>r\<close> is zero, is \<open>neg\<close>.\<close>

definition finite_result :: "bool \<Rightarrow> real \<Rightarrow> jsnum" where
  "finite_result neg r = (if r = 0 then signed_zero neg else Fin r)"

text \<open>\<^verbatim>\<open>a * b\<close> (Number::multiply).\<close>

definition js_mul :: "jsnum \<Rightarrow> jsnum \<Rightarrow> jsnum" where
  "js_mul a b =
     (if is_nan a \<or> is_nan b then NaN
      else if (is_inf a \<and> is_zero b) \<or> (is_zero a \<and> is_inf b) then NaN
      else if is_inf a \<or> is_inf b then signed_inf (negative a \<noteq> negative b)
      else finite_result (negative a \<noteq> negative b) (val a * val b))"

text \<open>\<^verbatim>\<open>a / b\<close> (Number::divide).\<close>

definition js_div :: "jsnum \<Rightarrow> jsnum \<Rightarrow> jsnum" where
  "js_div a b =
     (if is_nan a \<or> is_nan b then NaN
      else if (is_inf a \<and> is_inf b) \<or> (is_zero a \<and> is_zero b) then NaN
      else if is_inf a \<or> is_zero b then signed_inf (negative a \<noteq> negative b)
      else if is_inf b then signed_zero (negative a \<noteq> negative b)
      else finite_result (negative a \<noteq> negative b) (val a / val b))"

text \<open>\<^verbatim>\<open>a >= b\<close> on Numbers: false as soon as one side is \<open>NaN\<close>; the zeros are equal.\<close>

fun js_ge :: "jsnum \<Rightarrow> jsnum \<Rightarrow> bool" where
  "js_ge NaN _ = False"
| "js_ge _ NaN = False"
| "js_ge PInf _ = True"
| "js_ge _ NInf = True"
| "js_ge NInf _ = False"
| "js_ge _ PInf = False"
| "js_ge a b = (val b \<le> val a)"

text \<open>\<^verbatim>\<open>Math.round\<close>: the nearest integer, ties towards \<open>+\<infinity>\<close>; a result of zero keeps
  the sign of the argument.\<close>

fun js_round :: "jsnum \<Rightarrow> jsnum" where
  "js_round (Fin r) = finite_result (r < 0) (of_int \<lfloor>r + 1 / 2\<rfloor>)"
| "js_round x = x"

text \<open>\<^verbatim>\<open>Math.floor\<close> and \<^verbatim>\<open>Math.ceil\<close>.\<close>

fun js_floor :: "jsnum \<Rightarrow> jsnum" where
  "js_floor (Fin r) = Fin (of_int \<lfloor>r\<rfloor>)"
| "js_floor x = x"

fun js_ceil :: "jsnum \<Rightarrow> jsnum" where
  "js_ceil (Fin r) = finite_result (r < 0) (of_int \<lceil>r\<rceil>)"
| "js_ceil x = x"

text \<open>\<^verbatim>\<open>Math.sqrt\<close>: \<open>NaN\<close> below zero, the zeros and \<open>+\<infinity>\<close> are returned as they are.\<close>

fun js_sqrt :: "jsnum \<Rightarrow> jsnum" where
  "js_sqrt NaN = NaN"
| "js_sqrt PInf = PInf"
| "js_sqrt NInf = NaN"
| "js_sqrt NegZero = NegZero"
| "js_sqrt (Fin r) = (if r < 0 then NaN else Fin (sqrt r))"

text \<open>\<^verbatim>\<open>Math.log2\<close>: \<open>NaN\<close> below zero, \<open>-\<infinity>\<close> at either zero.\<close>

fun js_log2 :: "jsnum \<Rightarrow> jsnum" where
  "js_log2 NaN = NaN"
| "js_log2 PInf = PInf"
| "js_log2 NInf = NaN"
| "js_log2 NegZero = NInf"
| "js_log2 (Fin r) = (if r < 0 then NaN else if r = 0 then NInf else Fin (log 2 r))"

text \<open>\<^verbatim>\<open>Math.max\<close> of two arguments: \<open>NaN\<close> if one of them is, and \<open>+0\<close> above \<open>-0\<close>.\<close>

definition js_max :: "jsnum \<Rightarrow> jsnum \<Rightarrow> jsnum" where
  "js_max a b =
     (if is_nan a \<or> is_nan b then NaN
      else if is_zero a \<and> is_zero b then signed_zero (negative a \<and> negative b)
      else if js_ge a b then a else b)"

text \<open>\<^verbatim>\<open>2 ** y\<close> (Number::exponentiate with base 2).\<close>

fun js_pow2 :: "jsnum \<Rightarrow> jsnum" where
  "js_pow2 NaN = NaN"
| "js_pow2 PInf = PInf"
| "js_pow2 NInf = Fin 0"
| "js_pow2 NegZero = Fin 1"
| "js_pow2 (Fin y) = Fin (2 powr y)"

text \<open>\<^verbatim>\<open>Math.cos\<close> and \<^verbatim>\<open>Math.atan\<close>.\<close>

fun js_cos :: "jsnum \<Rightarrow> jsnum" where
  "js_cos (Fin r) = Fin (cos r)"
| "js_cos NegZero = Fin 1"
| "js_cos _ = NaN"

fun js_atan :: "jsnum \<Rightarrow> jsnum" where
  "js_atan NaN = NaN"
| "js_atan PInf = Fin (pi / 2)"
| "js_atan NInf = Fin (- (pi / 2))"
| "js_atan NegZero = NegZero"
| "js_atan (Fin r) = Fin (arctan r)"

definition Math_PI :: jsnum where
  "Math_PI = Fin pi"

text \<open>ToBoolean of a Number: the zeros and \<open>NaN\<close> are falsy.\<close>

definition truthy_num :: "jsnum \<Rightarrow> bool" where
  "truthy_num n = (\<not> is_zero n \<and> \<not> is_nan n)"

section \<open>JavaScript values\<close>

text \<open>
  A calibration record is plain data: an object whose properties hold numbers, strings
  and further objects. Objects are modelled as trees, a property list in the order of
  \<^verbatim>\<open>Object.getOwnPropertyNames\<close>, with one flag, set by \<^verbatim>\<open>Object.freeze\<close> and read by
  \<^verbatim>\<open>Object.isFrozen\<close>. Accessor properties, symbol keys, prototypes and objects shared
  between two places of a record are outside this model.
\<close>

datatype jsval =
    VUndefined
  | VNull
  | VBool bool
  | VNumber jsnum
  | VString string
  | VObject bool "(string \<times> jsval) list"

datatype error = TypeError | NotModelled

definition and_then :: "error + 'a \<Rightarrow> ('a \<Rightarrow> error + 'b) \<Rightarrow> error + 'b" where
  "and_then m f = (case m of Inl e \<Rightarrow> Inl e | Inr x \<Rightarrow> f x)"

text \<open>\<^verbatim>\<open>typeof v\<close>; \<^verbatim>\<open>typeof null\<close> is \<^verbatim>\<open>'object'\<close>. Functions are not among the modelled
  values, so nothing answers \<^verbatim>\<open>'function'\<close>.\<close>

fun js_typeof :: "jsval \<Rightarrow> string" where
  "js_typeof VUndefined = ''undefined''"
| "js_typeof VNull = ''object''"
| "js_typeof (VBool b) = ''boolean''"
| "js_typeof (VNumber n) = ''number''"
| "js_typeof (VString s) = ''string''"
| "js_typeof (VObject fr ps) = ''object''"

text \<open>\<^verbatim>\<open>Object.isFrozen\<close>; a primitive value counts as frozen.\<close>

fun isFrozen :: "jsval \<Rightarrow> bool" where
  "isFrozen (VObject fr ps) = fr"
| "isFrozen _ = True"

text \<open>
  \<^verbatim>\<open>o.p\<close>: reading a property of \<^verbatim>\<open>undefined\<close> or \<^verbatim>\<open>null\<close> throws; a missing property
  reads as \<^verbatim>\<open>undefined\<close>. None of the names this program reads (\<^verbatim>\<open>calibration\<close>,
  \<^verbatim>\<open>value\<close> and the names of the measurements) is a property of a primitive's wrapper,
  so a primitive answers \<^verbatim>\<open>undefined\<close>.
\<close>

fun get_prop :: "jsval \<Rightarrow> string \<Rightarrow> error + jsval" where
  "get_prop VUndefined p = Inl TypeError"
| "get_prop VNull p = Inl TypeError"
| "get_prop (VObject fr ps) p = Inr (case map_of ps p of Some v \<Rightarrow> v | None \<Rightarrow> VUndefined)"
| "get_prop _ p = Inr VUndefined"

text \<open>
  ToNumber, applied by the arithmetic operators to their operands. Parsing a string and
  converting an object through \<^verbatim>\<open>valueOf\<close> are not modelled.
\<close>

fun to_number :: "jsval \<Rightarrow> error + jsnum" where
  "to_number VUndefined = Inr NaN"
| "to_number VNull = Inr (Fin 0)"
| "to_number (VBool b) = Inr (Fin (if b then 1 else 0))"
| "to_number (VNumber n) = Inr n"
| "to_number (VString s) = Inl NotModelled"
| "to_number (VObject fr ps) = Inl NotModelled"

text \<open>ToBoolean, applied by the conditional operator.\<close>

fun to_boolean :: "jsval \<Rightarrow> bool" where
  "to_boolean VUndefined = False"
| "to_boolean VNull = False"
| "to_boolean (VBool b) = b"
| "to_boolean (VNumber n) = truthy_num n"
| "to_boolean (VString s) = (s \<noteq> [])"
| "to_boolean (VObject fr ps) = True"

section \<open>deepFreeze\<close>

text \<open>
  \<^verbatim>\<open>
  function deepFreeze(o) {
    Object.freeze(o);
    if (o === undefined) { return o; }
    Object.getOwnPropertyNames(o).forEach(function (prop) {
      if (o[prop] !== null
        && (typeof o[prop] === 'object' || typeof o[prop] === 'function')
        && !Object.isFrozen(o[prop])) {
        deepFreeze(o[prop]);
      }
    });
    return o;
  }
  \<close>
  \<^verbatim>\<open>Object.freeze\<close> returns a primitive as it is; \<^verbatim>\<open>Object.getOwnPropertyNames(null)\<close>
  throws a TypeError. The own properties of a primitive hold primitives, so the loop
  does nothing there. \<open>forEach_prop\<close> is the loop over the properties of an object.
\<close>

fun deepFreeze :: "jsval \<Rightarrow> error + jsval"
  and forEach_prop :: "(string \<times> jsval) list \<Rightarrow> error + (string \<times> jsval) list" where
  "deepFreeze VUndefined = Inr VUndefined"
| "deepFreeze VNull = Inl TypeError"
| "deepFreeze (VBool b) = Inr (VBool b)"
| "deepFreeze (VNumber n) = Inr (VNumber n)"
| "deepFreeze (VString s) = Inr (VString s)"
| "deepFreeze (VObject fr ps) =
     and_then (forEach_prop ps) (\<lambda>ps'. Inr (VObject True ps'))"
| "forEach_prop [] = Inr []"
| "forEach_prop (kv # ps) =
     and_then (if snd kv \<noteq> VNull
                  \<and> (js_typeof (snd kv) = ''object'' \<or> js_typeof (snd kv) = ''function'')
                  \<and> \<not> isFrozen (snd kv)
               then deepFreeze (snd kv) else Inr (snd kv))
       (\<lambda>v'. and_then (forEach_prop ps) (\<lambda>ps'. Inr ((fst kv, v') # ps')))"

section \<open>The configuration store\<close>

text \<open>
  The backing fields of the object \<^verbatim>\<open>makeConfig\<close> builds: \<^verbatim>\<open>_calibration\<close>,
  \<^verbatim>\<open>_tileHeight\<close> and so on (a name cannot start with an underscore here, so the fields
  are \<open>priv_calibration\<close>, \<open>priv_tileHeight\<close>, ...). No setter checks what it stores, so
  every field holds any value.
\<close>

record backing =
  priv_calibration :: jsval
  priv_tileHeight :: jsval
  priv_numViews :: jsval
  priv_targetX :: jsval
  priv_targetY :: jsval
  priv_targetZ :: jsval
  priv_trackballX :: jsval
  priv_trackballY :: jsval
  priv_targetDiam :: jsval
  priv_fovy :: jsval
  priv_depthiness :: jsval
  priv_inlineView :: jsval

datatype console_entry = ConsoleError string | ConsoleWarn string

text \<open>
  Besides its fields the store has the state of the notification loop:
  \<^item> \<open>pending\<close>: the promise whose resolve function \<^verbatim>\<open>_ensureConfigChangeEvent\<close> holds is
    still pending;
  \<^item> \<open>microtasks\<close>: the number of queued reactions \<^verbatim>\<open>() => fireChanged(true)\<close> of resolved
    promises, which run at the next microtask checkpoint;
  \<^item> \<open>listeners\<close>: the callbacks registered for \<^verbatim>\<open>'on-config-changed'\<close>, in the order of
    registration;
  \<^item> \<open>delivered\<close>: for each call of a listener, the listener and the fields of the store it
    finds when it is called, oldest first (a listener is taken to read the store, not to
    call a setter while it runs);
  \<^item> \<open>console\<close>: what was written with \<^verbatim>\<open>console.error\<close> and \<^verbatim>\<open>console.warn\<close>.
\<close>

record store =
  backing :: backing
  pending :: bool
  microtasks :: nat
  listeners :: "nat list"
  delivered :: "(nat \<times> backing) list"
  console :: "console_entry list"

subsection \<open>The notification loop\<close>

text \<open>
  \<^verbatim>\<open>
  const fireChanged = (dispatch) => {
    if (dispatch) this.dispatchEvent(new Event('on-config-changed'));
    const changePromise = new Promise(r => { this._ensureConfigChangeEvent = r; });
    changePromise.then(() => fireChanged(true));
  };
  \<close>
  Calling the resolve function of a pending promise fulfils it and queues its reaction as
  a microtask; calling it again does nothing. The reaction does not run before the
  running code has returned.
\<close>

definition ensureConfigChangeEvent :: "store \<Rightarrow> store" where
  "ensureConfigChangeEvent s =
     (if pending s then s\<lparr>pending := False, microtasks := Suc (microtasks s)\<rparr> else s)"

definition dispatchEvent :: "store \<Rightarrow> store" where
  "dispatchEvent s = s\<lparr>delivered := delivered s @ map (\<lambda>l. (l, backing s)) (listeners s)\<rparr>"

definition fireChanged :: "bool \<Rightarrow> store \<Rightarrow> store" where
  "fireChanged dispatch s = (if dispatch then dispatchEvent s else s)\<lparr>pending := True\<rparr>"

text \<open>A microtask checkpoint: the queued reactions run until the queue is empty.\<close>

function checkpoint :: "store \<Rightarrow> store" where
  "checkpoint s =
     (if microtasks s = 0 then s
      else checkpoint (fireChanged True (s\<lparr>microtasks := microtasks s - 1\<rparr>)))"
  by pat_completeness auto
termination
  by (relation "measure microtasks") (auto simp: fireChanged_def dispatchEvent_def)

declare checkpoint.simps [simp del]

text \<open>\<^verbatim>\<open>addEventListener\<close> and \<^verbatim>\<open>removeEventListener\<close> of the \<^verbatim>\<open>EventTarget\<close> the store
  extends: a callback is registered once.\<close>

definition addEventListener :: "nat \<Rightarrow> store \<Rightarrow> store" where
  "addEventListener l s =
     (if l \<in> set (listeners s) then s else s\<lparr>listeners := listeners s @ [l]\<rparr>)"

definition removeEventListener :: "nat \<Rightarrow> store \<Rightarrow> store" where
  "removeEventListener l s = s\<lparr>listeners := removeAll l (listeners s)\<rparr>"

subsection \<open>Getters and setters of the fields\<close>

definition calibration :: "store \<Rightarrow> jsval" where
  "calibration s = priv_calibration (backing s)"

text \<open>\<^verbatim>\<open>set calibration(v) { this._calibration = deepFreeze(v); this._ensureConfigChangeEvent(); }\<close>\<close>

definition set_calibration :: "jsval \<Rightarrow> store \<Rightarrow> error + store" where
  "set_calibration v s =
     and_then (deepFreeze v)
       (\<lambda>v'. Inr (ensureConfigChangeEvent (s\<lparr>backing := (backing s)\<lparr>priv_calibration := v'\<rparr>\<rparr>)))"

text \<open>\<^verbatim>\<open>get tileHeight() { return this._tileHeight; }
  set tileHeight(v) { this._tileHeight = v; this._ensureConfigChangeEvent(); }\<close>
  and the ten pairs written the same way.\<close>

definition tileHeight :: "store \<Rightarrow> jsval" where
  "tileHeight s = priv_tileHeight (backing s)"

definition set_tileHeight :: "jsval \<Rightarrow> store \<Rightarrow> store" where
  "set_tileHeight v s =
     ensureConfigChangeEvent (s\<lparr>backing := (backing s)\<lparr>priv_tileHeight := v\<rparr>\<rparr>)"

definition numViews :: "store \<Rightarrow> jsval" where
  "numViews s = priv_numViews (backing s)"

definition set_numViews :: "jsval \<Rightarrow> store \<Rightarrow> store" where
  "set_numViews v s =
     ensureConfigChangeEvent (s\<lparr>backing := (backing s)\<lparr>priv_numViews := v\<rparr>\<rparr>)"

definition targetX :: "store \<Rightarrow> jsval" where
  "targetX s = priv_targetX (backing s)"

definition set_targetX :: "jsval \<Rightarrow> store \<Rightarrow> store" where
  "set_targetX v s =
     ensureConfigChangeEvent (s\<lparr>backing := (backing s)\<lparr>priv_targetX := v\<rparr>\<rparr>)"

definition targetY :: "store \<Rightarrow> jsval" where
  "targetY s = priv_targetY (backing s)"

definition set_targetY :: "jsval \<Rightarrow> store \<Rightarrow> store" where
  "set_targetY v s =
     ensureConfigChangeEvent (s\<lparr>backing := (backing s)\<lparr>priv_targetY := v\<rparr>\<rparr>)"

definition targetZ :: "store \<Rightarrow> jsval" where
  "targetZ s = priv_targetZ (backing s)"

definition set_targetZ :: "jsval \<Rightarrow> store \<Rightarrow> store" where
  "set_targetZ v s =
     ensureConfigChangeEvent (s\<lparr>backing := (backing s)\<lparr>priv_targetZ := v\<rparr>\<rparr>)"

definition trackballX :: "store \<Rightarrow> jsval" where
  "trackballX s = priv_trackballX (backing s)"

definition set_trackballX :: "jsval \<Rightarrow> store \<Rightarrow> store" where
  "set_trackballX v s =
     ensureConfigChangeEvent (s\<lparr>backing := (backing s)\<lparr>priv_trackballX := v\<rparr>\<rparr>)"

definition trackballY :: "store \<Rightarrow> jsval" where
  "trackballY s = priv_trackballY (backing s)"

definition set_trackballY :: "jsval \<Rightarrow> store \<Rightarrow> store" where
  "set_trackballY v s =
     ensureConfigChangeEvent (s\<lparr>backing := (backing s)\<lparr>priv_trackballY := v\<rparr>\<rparr>)"

definition targetDiam :: "store \<Rightarrow> jsval" where
  "targetDiam s = priv_targetDiam (backing s)"

definition set_targetDiam :: "jsval \<Rightarrow> store \<Rightarrow> store" where
  "set_targetDiam v s =
     ensureConfigChangeEvent (s\<lparr>backing := (backing s)\<lparr>priv_targetDiam := v\<rparr>\<rparr>)"

definition fovy :: "store \<Rightarrow> jsval" where
  "fovy s = priv_fovy (backing s)"

definition set_fovy :: "jsval \<Rightarrow> store \<Rightarrow> store" where
  "set_fovy v s =
     ensureConfigChangeEvent (s\<lparr>backing := (backing s)\<lparr>priv_fovy := v\<rparr>\<rparr>)"

definition depthiness :: "store \<Rightarrow> jsval" where
  "depthiness s = priv_depthiness (backing s)"

definition set_depthiness :: "jsval \<Rightarrow> store \<Rightarrow> store" where
  "set_depthiness v s =
     ensureConfigChangeEvent (s\<lparr>backing := (backing s)\<lparr>priv_depthiness := v\<rparr>\<rparr>)"

definition inlineView :: "store \<Rightarrow> jsval" where
  "inlineView s = priv_inlineView (backing s)"

definition set_inlineView :: "jsval \<Rightarrow> store \<Rightarrow> store" where
  "set_inlineView v s =
     ensureConfigChangeEvent (s\<lparr>backing := (backing s)\<lparr>priv_inlineView := v\<rparr>\<rparr>)"

subsection \<open>Computed getters\<close>

text \<open>\<^verbatim>\<open>this.calibration.x.value\<close>, as the value found there.\<close>

definition cal_value :: "store \<Rightarrow> string \<Rightarrow> error + jsval" where
  "cal_value s x = and_then (get_prop (calibration s) x) (\<lambda>e. get_prop e ''value'')"

text \<open>\<^verbatim>\<open>get aspect() { return this.calibration.screenW.value / this.calibration.screenH.value; }\<close>\<close>

definition aspect :: "store \<Rightarrow> error + jsnum" where
  "aspect s =
     and_then (cal_value s ''screenW'') (\<lambda>w.
     and_then (cal_value s ''screenH'') (\<lambda>h.
     and_then (to_number w) (\<lambda>w.
     and_then (to_number h) (\<lambda>h. Inr (js_div w h)))))"

text \<open>\<^verbatim>\<open>get tileWidth() { return Math.round(this.tileHeight * this.aspect); }\<close>\<close>

definition tileWidth :: "store \<Rightarrow> error + jsnum" where
  "tileWidth s =
     and_then (aspect s) (\<lambda>a.
     and_then (to_number (tileHeight s)) (\<lambda>h. Inr (js_round (js_mul h a))))"

text \<open>
  \<^verbatim>\<open>
  get framebufferWidth() {
    const numPixels = this.tileWidth * this.tileHeight * this.numViews;
    return 2 ** Math.ceil(Math.log2(Math.max(Math.sqrt(numPixels), this.tileWidth)));
  }
  \<close>
\<close>

definition numPixels :: "store \<Rightarrow> error + jsnum" where
  "numPixels s =
     and_then (tileWidth s) (\<lambda>w.
     and_then (to_number (tileHeight s)) (\<lambda>h.
     and_then (to_number (numViews s)) (\<lambda>n. Inr (js_mul (js_mul w h) n))))"

definition framebufferWidth :: "store \<Rightarrow> error + jsnum" where
  "framebufferWidth s =
     and_then (numPixels s) (\<lambda>np.
     and_then (tileWidth s) (\<lambda>w.
       Inr (js_pow2 (js_ceil (js_log2 (js_max (js_sqrt np) w))))))"

text \<open>\<^verbatim>\<open>get quiltWidth() { return Math.floor(this.framebufferWidth / this.tileWidth); }\<close>\<close>

definition quiltWidth :: "store \<Rightarrow> error + jsnum" where
  "quiltWidth s =
     and_then (framebufferWidth s) (\<lambda>fb.
     and_then (tileWidth s) (\<lambda>w. Inr (js_floor (js_div fb w))))"

text \<open>\<^verbatim>\<open>get quiltHeight() { return Math.ceil(this.numViews / this.quiltWidth); }\<close>\<close>

definition quiltHeight :: "store \<Rightarrow> error + jsnum" where
  "quiltHeight s =
     and_then (quiltWidth s) (\<lambda>q.
     and_then (to_number (numViews s)) (\<lambda>n. Inr (js_ceil (js_div n q))))"

text \<open>\<^verbatim>\<open>get framebufferHeight() { return 2 ** Math.ceil(Math.log2(this.quiltHeight * this.tileHeight)); }\<close>\<close>

definition framebufferHeight :: "store \<Rightarrow> error + jsnum" where
  "framebufferHeight s =
     and_then (quiltHeight s) (\<lambda>q.
     and_then (to_number (tileHeight s)) (\<lambda>h.
       Inr (js_pow2 (js_ceil (js_log2 (js_mul q h))))))"

text \<open>\<^verbatim>\<open>get viewCone() { return this.calibration.viewCone.value * this.depthiness / 180 * Math.PI; }\<close>\<close>

definition viewCone :: "store \<Rightarrow> error + jsnum" where
  "viewCone s =
     and_then (cal_value s ''viewCone'') (\<lambda>v.
     and_then (to_number v) (\<lambda>v.
     and_then (to_number (depthiness s)) (\<lambda>d.
       Inr (js_mul (js_div (js_mul v d) (Fin 180)) Math_PI))))"

text \<open>
  \<^verbatim>\<open>
  get tilt() {
    return this.calibration.screenH.value /
      (this.calibration.screenW.value * this.calibration.slope.value) *
      (this.calibration.flipImageX.value ? -1 : 1);
  }
  \<close>
\<close>

definition tilt :: "store \<Rightarrow> error + jsnum" where
  "tilt s =
     and_then (cal_value s ''screenH'') (\<lambda>h.
     and_then (cal_value s ''screenW'') (\<lambda>w.
     and_then (cal_value s ''slope'') (\<lambda>sl.
     and_then (to_number w) (\<lambda>w.
     and_then (to_number sl) (\<lambda>sl.
     and_then (to_number h) (\<lambda>h.
     and_then (cal_value s ''flipImageX'') (\<lambda>f.
       Inr (js_mul (js_div h (js_mul w sl))
              (if to_boolean f then Fin (- 1) else Fin 1)))))))))"

text \<open>\<^verbatim>\<open>get subp() { return 1 / (this.calibration.screenW.value * 3); }\<close>\<close>

definition subp :: "store \<Rightarrow> error + jsnum" where
  "subp s =
     and_then (cal_value s ''screenW'') (\<lambda>w.
     and_then (to_number w) (\<lambda>w. Inr (js_div (Fin 1) (js_mul w (Fin 3)))))"

text \<open>
  \<^verbatim>\<open>
  get pitch() {
    const screenInches = this.calibration.screenW.value / this.calibration.DPI.value;
    return this.calibration.pitch.value * screenInches *
      Math.cos(Math.atan(1.0 / this.calibration.slope.value));
  }
  \<close>
\<close>

definition screenInches :: "store \<Rightarrow> error + jsnum" where
  "screenInches s =
     and_then (cal_value s ''screenW'') (\<lambda>w.
     and_then (cal_value s ''DPI'') (\<lambda>d.
     and_then (to_number w) (\<lambda>w.
     and_then (to_number d) (\<lambda>d. Inr (js_div w d)))))"

definition pitch :: "store \<Rightarrow> error + jsnum" where
  "pitch s =
     and_then (screenInches s) (\<lambda>i.
     and_then (cal_value s ''pitch'') (\<lambda>p.
     and_then (to_number p) (\<lambda>p.
     and_then (cal_value s ''slope'') (\<lambda>sl.
     and_then (to_number sl) (\<lambda>sl.
       Inr (js_mul (js_mul p i) (js_cos (js_atan (js_div (Fin 1) sl)))))))))"

text \<open>
  Reading a getter is an operation on the store like calling a setter: it returns the
  store it leaves behind together with what it read. A getter of the source has no
  assignment and calls nothing but getters and \<^verbatim>\<open>Math\<close> functions.
\<close>

datatype getter =
  Aspect | TileWidth | FramebufferWidth | QuiltWidth | QuiltHeight | FramebufferHeight
  | ViewCone | Tilt | Subp | Pitch

fun read :: "getter \<Rightarrow> store \<Rightarrow> (error + jsnum) \<times> store" where
  "read Aspect s = (aspect s, s)"
| "read TileWidth s = (tileWidth s, s)"
| "read FramebufferWidth s = (framebufferWidth s, s)"
| "read QuiltWidth s = (quiltWidth s, s)"
| "read QuiltHeight s = (quiltHeight s, s)"
| "read FramebufferHeight s = (framebufferHeight s, s)"
| "read ViewCone s = (viewCone s, s)"
| "read Tilt s = (tilt s, s)"
| "read Subp s = (subp s, s)"
| "read Pitch s = (pitch s, s)"

subsection \<open>Construction\<close>

definition kDefaultEyeHeight :: jsnum where
  "kDefaultEyeHeight = Fin (16 / 10)"

definition kFakeCalibration :: jsval where
  "kFakeCalibration = VObject False
     [(''configVersion'', VString ''1.0''),
      (''pitch'', VObject False [(''value'', VNumber (Fin 45))]),
      (''slope'', VObject False [(''value'', VNumber (Fin (- 5)))]),
      (''center'', VObject False [(''value'', VNumber (Fin (- (1 / 2))))]),
      (''viewCone'', VObject False [(''value'', VNumber (Fin 40))]),
      (''invView'', VObject False [(''value'', VNumber (Fin 1))]),
      (''verticalAngle'', VObject False [(''value'', VNumber (Fin 0))]),
      (''DPI'', VObject False [(''value'', VNumber (Fin 338))]),
      (''screenW'', VObject False [(''value'', VNumber (Fin 250))]),
      (''screenH'', VObject False [(''value'', VNumber (Fin 250))]),
      (''flipImageX'', VObject False [(''value'', VNumber (Fin 0))]),
      (''flipImageY'', VObject False [(''value'', VNumber (Fin 0))]),
      (''flipSubp'', VObject False [(''value'', VNumber (Fin 0))])]"

text \<open>The object before the constructor has run: no field is set, no promise exists.\<close>

definition blank :: store where
  "blank = \<lparr>backing = \<lparr>priv_calibration = VUndefined, priv_tileHeight = VUndefined, priv_numViews = VUndefined, priv_targetX = VUndefined, priv_targetY = VUndefined, priv_targetZ = VUndefined, priv_trackballX = VUndefined, priv_trackballY = VUndefined, priv_targetDiam = VUndefined, priv_fovy = VUndefined, priv_depthiness = VUndefined, priv_inlineView = VUndefined\<rparr>,
     pending = False, microtasks = 0, listeners = [], delivered = [], console = []\<rparr>"

text \<open>
  The constructor: \<^verbatim>\<open>fireChanged(false)\<close>, the placeholder calibration, the client (whose
  callbacks \<open>onMessage\<close> and \<open>onError\<close> run later, each in a task of its own), and the
  defaults in the order of the source.
\<close>

definition makeConfig :: "error + store" where
  "makeConfig =
     and_then (set_calibration kFakeCalibration (fireChanged False blank)) (\<lambda>s.
       Inr (fold (\<lambda>setter. setter)
         [set_tileHeight (VNumber (Fin 320)),
          set_numViews (VNumber (Fin 2)),
          set_trackballX (VNumber (Fin 0)),
          set_trackballY (VNumber (Fin 0)),
          set_targetX (VNumber (Fin 0)),
          set_targetY (VNumber kDefaultEyeHeight),
          set_targetZ (VNumber (Fin (- (1 / 2)))),
          set_targetDiam (VNumber (Fin 2)),
          set_fovy (VNumber (js_mul (js_div (Fin 13) (Fin 180)) Math_PI)),
          set_depthiness (VNumber (Fin (125 / 100))),
          set_inlineView (VNumber (Fin 1))] s))"

subsection \<open>The callbacks of the client\<close>

record msg =
  devices :: "jsval list"

text \<open>
  \<^verbatim>\<open>
  (msg) => {
    if (msg.devices.length < 1) {
      console.error('No HoloPlay devices found!');
      return;
    }
    if (msg.devices.length > 1) {
      console.warn('More than one HoloPlay device found... using the first one');
    }
    this.calibration = msg.devices[0].calibration;
  }
  \<close>
\<close>

text \<open>
  The callback returns the store it leaves. When reading \<^verbatim>\<open>msg.devices[0].calibration\<close>
  or the setter throws, the exception leaves the callback: the result is then the error
  together with the store as it is at that moment, with what the callback has written
  to the console before.
\<close>

definition onMessage :: "msg \<Rightarrow> store \<Rightarrow> (error \<times> store) + store" where
  "onMessage m s =
     (if length (devices m) < 1
      then Inr (s\<lparr>console := console s @ [ConsoleError ''No HoloPlay devices found!'']\<rparr>)
      else
        let s' = (if length (devices m) > 1
                  then s\<lparr>console := console s @
                    [ConsoleWarn ''More than one HoloPlay device found... using the first one'']\<rparr>
                  else s)
        in (case and_then (get_prop (devices m ! 0) ''calibration'')
                    (\<lambda>c. set_calibration c s') of
              Inl e \<Rightarrow> Inl (e, s')
            | Inr s'' \<Rightarrow> Inr s''))"

text \<open>\<^verbatim>\<open>(err) => { console.error('Error creating HoloPlay client:', err); }\<close>\<close>

definition onError :: "string \<Rightarrow> store \<Rightarrow> store" where
  "onError err s =
     s\<lparr>console := console s @ [ConsoleError (''Error creating HoloPlay client: '' @ err)]\<rparr>"

section \<open>Runs of the program\<close>

text \<open>
  A consumer of the store changes it through the setters. A mutation is one call of a
  setter; a turn is the code that runs between two microtask checkpoints (a task of the
  event loop, or the code between two \<^verbatim>\<open>await\<close>s). A setter that throws ends its turn.
\<close>

datatype mutation =
    SetCalibration jsval
  | SetTileHeight jsval
  | SetNumViews jsval
  | SetTargetX jsval
  | SetTargetY jsval
  | SetTargetZ jsval
  | SetTrackballX jsval
  | SetTrackballY jsval
  | SetTargetDiam jsval
  | SetFovy jsval
  | SetDepthiness jsval
  | SetInlineView jsval

fun mutate :: "mutation \<Rightarrow> store \<Rightarrow> error + store" where
  "mutate (SetCalibration v) s = set_calibration v s"
| "mutate (SetTileHeight v) s = Inr (set_tileHeight v s)"
| "mutate (SetNumViews v) s = Inr (set_numViews v s)"
| "mutate (SetTargetX v) s = Inr (set_targetX v s)"
| "mutate (SetTargetY v) s = Inr (set_targetY v s)"
| "mutate (SetTargetZ v) s = Inr (set_targetZ v s)"
| "mutate (SetTrackballX v) s = Inr (set_trackballX v s)"
| "mutate (SetTrackballY v) s = Inr (set_trackballY v s)"
| "mutate (SetTargetDiam v) s = Inr (set_targetDiam v s)"
| "mutate (SetFovy v) s = Inr (set_fovy v s)"
| "mutate (SetDepthiness v) s = Inr (set_depthiness v s)"
| "mutate (SetInlineView v) s = Inr (set_inlineView v s)"

fun run_sync :: "mutation list \<Rightarrow> store \<Rightarrow> store" where
  "run_sync [] s = s"
| "run_sync (m # ms) s = (case mutate m s of Inl e \<Rightarrow> s | Inr s' \<Rightarrow> run_sync ms s')"

definition turn :: "mutation list \<Rightarrow> store \<Rightarrow> store" where
  "turn ms s = checkpoint (run_sync ms s)"

definition run_turns :: "mutation list list \<Rightarrow> store \<Rightarrow> store" where
  "run_turns ts s = fold turn ts s"

text \<open>Each mutation in a turn of its own.\<close>

definition one_by_one :: "mutation list \<Rightarrow> store \<Rightarrow> store" where
  "one_by_one ms s = run_turns (map (\<lambda>m. [m]) ms) s"

text \<open>What the listener \<open>l\<close> has found at each of its calls so far, oldest first.\<close>

definition seen_by :: "nat \<Rightarrow> store \<Rightarrow> backing list" where
  "seen_by l s = map snd (filter (\<lambda>e. fst e = l) (delivered s))"

text \<open>Between two turns no reaction is queued and the promise of the loop is pending.\<close>

definition settled :: "store \<Rightarrow> bool" where
  "settled s = (pending s \<and> microtasks s = 0)"

text \<open>While a turn runs, the promise is pending and nothing is queued, or the promise is
  resolved and its reaction is the one queued microtask.\<close>

definition in_turn :: "store \<Rightarrow> bool" where
  "in_turn s = (if pending s then microtasks s = 0 else microtasks s = Suc 0)"

section \<open>Frozen records\<close>

text \<open>An object is deeply frozen when it and every object below it is frozen.\<close>

fun deep_frozen :: "jsval \<Rightarrow> bool"
  and deep_frozen_props :: "(string \<times> jsval) list \<Rightarrow> bool" where
  "deep_frozen (VObject fr ps) = (fr \<and> deep_frozen_props ps)"
| "deep_frozen VUndefined = True"
| "deep_frozen VNull = True"
| "deep_frozen (VBool b) = True"
| "deep_frozen (VNumber n) = True"
| "deep_frozen (VString s) = True"
| "deep_frozen_props [] = True"
| "deep_frozen_props (kv # ps) = (deep_frozen (snd kv) \<and> deep_frozen_props ps)"

text \<open>The data of a value, whatever is frozen: the same value with every flag cleared.\<close>

fun content :: "jsval \<Rightarrow> jsval"
  and content_props :: "(string \<times> jsval) list \<Rightarrow> (string \<times> jsval) list" where
  "content (VObject fr ps) = VObject False (content_props ps)"
| "content VUndefined = VUndefined"
| "content VNull = VNull"
| "content (VBool b) = VBool b"
| "content (VNumber n) = VNumber n"
| "content (VString s) = VString s"
| "content_props [] = []"
| "content_props (kv # ps) = (fst kv, content (snd kv)) # content_props ps"

text \<open>
  \<open>no_frozen_gap v\<close>: no object below the top of \<open>v\<close> is frozen already while an object
  below it is not.
\<close>

fun freezable :: "jsval \<Rightarrow> bool"
  and freezable_props :: "(string \<times> jsval) list \<Rightarrow> bool" where
  "freezable (VObject fr ps) = (if fr then deep_frozen_props ps else freezable_props ps)"
| "freezable VUndefined = True"
| "freezable VNull = True"
| "freezable (VBool b) = True"
| "freezable (VNumber n) = True"
| "freezable (VString s) = True"
| "freezable_props [] = True"
| "freezable_props (kv # ps) = (freezable (snd kv) \<and> freezable_props ps)"

fun no_frozen_gap :: "jsval \<Rightarrow> bool" where
  "no_frozen_gap (VObject fr ps) = freezable_props ps"
| "no_frozen_gap _ = True"

text \<open>
  An attempt to change a record from outside: the assignment \<^verbatim>\<open>v.p1. ... .pn = x\<close>.
  The objects on the way are read with \<open>get_prop\<close>; the last one is written. Writing to
  a frozen object, or to a primitive, throws a TypeError in strict code and is ignored in
  sloppy code. The write changes the object it reaches in place, so the record read
  again has the new value at that place, whether the objects above it are frozen or not.
\<close>

fun put_prop :: "string \<Rightarrow> jsval \<Rightarrow> (string \<times> jsval) list \<Rightarrow> (string \<times> jsval) list" where
  "put_prop p x [] = [(p, x)]"
| "put_prop p x (kv # ps) = (if fst kv = p then (p, x) # ps else kv # put_prop p x ps)"

fun assign_path :: "bool \<Rightarrow> jsval \<Rightarrow> string list \<Rightarrow> jsval \<Rightarrow> error + jsval" where
  "assign_path strict v [] x = Inr v"
| "assign_path strict VUndefined (p # path) x = Inl TypeError"
| "assign_path strict VNull (p # path) x = Inl TypeError"
| "assign_path strict (VObject fr ps) [p] x =
     (if fr then (if strict then Inl TypeError else Inr (VObject fr ps))
      else Inr (VObject fr (put_prop p x ps)))"
| "assign_path strict (VObject fr ps) (p # q # path) x =
     (case map_of ps p of
        None \<Rightarrow> Inl TypeError
      | Some c \<Rightarrow> and_then (assign_path strict c (q # path) x)
                   (\<lambda>c'. Inr (VObject fr (put_prop p c' ps))))"
| "assign_path strict v [p] x = (if strict then Inl TypeError else Inr v)"
| "assign_path strict v (p # q # path) x = Inl TypeError"

section \<open>The store after construction\<close>

text \<open>The placeholder calibration as the setter stores it, and the store the
  constructor returns: the setters have resolved the first promise of the notification
  loop, whose reaction waits in the microtask queue.\<close>

definition frozen_placeholder :: jsval where
  "frozen_placeholder = VObject True
     [(''configVersion'', VString ''1.0''),
      (''pitch'', VObject True [(''value'', VNumber (Fin 45))]),
      (''slope'', VObject True [(''value'', VNumber (Fin (- 5)))]),
      (''center'', VObject True [(''value'', VNumber (Fin (- (1 / 2))))]),
      (''viewCone'', VObject True [(''value'', VNumber (Fin 40))]),
      (''invView'', VObject True [(''value'', VNumber (Fin 1))]),
      (''verticalAngle'', VObject True [(''value'', VNumber (Fin 0))]),
      (''DPI'', VObject True [(''value'', VNumber (Fin 338))]),
      (''screenW'', VObject True [(''value'', VNumber (Fin 250))]),
      (''screenH'', VObject True [(''value'', VNumber (Fin 250))]),
      (''flipImageX'', VObject True [(''value'', VNumber (Fin 0))]),
      (''flipImageY'', VObject True [(''value'', VNumber (Fin 0))]),
      (''flipSubp'', VObject True [(''value'', VNumber (Fin 0))])]"

definition default_store :: store where
  "default_store = \<lparr>backing = \<lparr>priv_calibration = frozen_placeholder,
     priv_tileHeight = VNumber (Fin 320),
     priv_numViews = VNumber (Fin 2),
     priv_targetX = VNumber (Fin 0),
     priv_targetY = VNumber (Fin (16 / 10)),
     priv_targetZ = VNumber (Fin (- (1 / 2))),
     priv_trackballX = VNumber (Fin 0),
     priv_trackballY = VNumber (Fin 0),
     priv_targetDiam = VNumber (Fin 2),
     priv_fovy = VNumber (Fin (13 / 180 * pi)),
     priv_depthiness = VNumber (Fin (125 / 100)),
     priv_inlineView = VNumber (Fin 1)\<rparr>,
     pending = False, microtasks = 1, listeners = [], delivered = [], console = []\<rparr>"

section \<open>Notions used to state the properties\<close>

text \<open>A number with a real value: neither \<open>NaN\<close> nor infinite.\<close>

fun finite_num :: "jsnum \<Rightarrow> bool" where
  "finite_num (Fin r) = True"
| "finite_num NegZero = True"
| "finite_num _ = False"



text \<open>A record with an object that was frozen, alone, before the record is assigned:
  \<^verbatim>\<open>{ lens: Object.freeze({ pitch: { value: 45 } }) }\<close>.\<close>

definition prefrozen_record :: jsval where
  "prefrozen_record =
     VObject False [(''lens'', VObject True [(''pitch'', VObject False [(''value'', VNumber (Fin 45))])])]"



text \<open>The default store once the reaction queued by the constructor has run, with one
  listener registered.\<close>

definition observed_store :: store where
  "observed_store = addEventListener 0 (checkpoint default_store)"

section \<open>Basic facts\<close>

lemma and_then_Inr: "and_then (Inr x) f = f x"
  by (simp add: and_then_def)


lemmas setter_defs =
  set_tileHeight_def set_numViews_def set_targetX_def set_targetY_def set_targetZ_def
  set_trackballX_def set_trackballY_def set_targetDiam_def set_fovy_def set_depthiness_def
  set_inlineView_def

lemma ceiling_log2:
  fixes x :: real and k :: int
  assumes "2 powr (of_int k - 1) < x" and "x \<le> 2 powr (of_int k)"
  shows "\<lceil>log 2 x\<rceil> = k"
proof -
  have "(0::real) < 2 powr (of_int k - 1)"
    by simp
  then have pos: "0 < x"
    using assms(1) by (rule less_trans)
  have "log 2 x \<le> of_int k"
    using assms(2) pos by (simp add: log_le_iff)
  moreover have "of_int k - 1 < log 2 x"
    using assms(1) pos by (simp add: less_log_iff)
  ultimately show ?thesis
    by (intro ceiling_unique) auto
qed

section \<open>Construction and the defaults\<close>

lemma deepFreeze_placeholder: "deepFreeze kFakeCalibration = Inr frozen_placeholder"
  by (simp add: kFakeCalibration_def frozen_placeholder_def and_then_def)

lemma fovy_default: "js_mul (js_div (Fin 13) (Fin 180)) Math_PI = Fin (13 / 180 * pi)"
  by (simp add: js_mul_def js_div_def Math_PI_def finite_result_def)

lemma makeConfig_default: "makeConfig = Inr default_store"
proof -
  have first: "set_calibration kFakeCalibration (fireChanged False blank) =
      Inr (blank\<lparr>backing := (backing blank)\<lparr>priv_calibration := frozen_placeholder\<rparr>,
                 pending := False, microtasks := 1\<rparr>)"
    by (simp add: set_calibration_def deepFreeze_placeholder and_then_Inr fireChanged_def
        blank_def ensureConfigChangeEvent_def)
  show ?thesis
    unfolding makeConfig_def first and_then_Inr
    by (simp add: setter_defs ensureConfigChangeEvent_def blank_def fovy_default
        kDefaultEyeHeight_def default_store_def)
qed

text \<open>
  C8. Right after construction the parameters are \<open>tileHeight = 320\<close>, \<open>numViews = 2\<close>,
  \<open>trackballX = 0\<close>, \<open>trackballY = 0\<close>, \<open>targetX = 0\<close>, \<open>targetY = 1.6\<close>,
  \<open>targetZ = -0.5\<close>, \<open>targetDiam = 2\<close>, \<open>fovy = 13 / 180 * \<pi>\<close>, \<open>depthiness = 1.25\<close>,
  \<open>inlineView = 1\<close>, and the calibration is the placeholder record, with
  \<open>configVersion = "1.0"\<close>, \<open>pitch = 45\<close>, \<open>slope = -5\<close>, \<open>center = -0.5\<close>, \<open>viewCone = 40\<close>,
  \<open>invView = 1\<close>, \<open>verticalAngle = 0\<close>, \<open>DPI = 338\<close>, \<open>screenW = 250\<close>, \<open>screenH = 250\<close>,
  \<open>flipImageX = 0\<close>, \<open>flipImageY = 0\<close>, \<open>flipSubp = 0\<close> (frozen by the setter).
\<close>

theorem defaults_after_construction:
  "\<exists>s. makeConfig = Inr s
     \<and> tileHeight s = VNumber (Fin 320)
     \<and> numViews s = VNumber (Fin 2)
     \<and> trackballX s = VNumber (Fin 0)
     \<and> trackballY s = VNumber (Fin 0)
     \<and> targetX s = VNumber (Fin 0)
     \<and> targetY s = VNumber (Fin (16 / 10))
     \<and> targetZ s = VNumber (Fin (- (5 / 10)))
     \<and> targetDiam s = VNumber (Fin 2)
     \<and> fovy s = VNumber (Fin (13 / 180 * pi))
     \<and> depthiness s = VNumber (Fin (125 / 100))
     \<and> inlineView s = VNumber (Fin 1)
     \<and> calibration s = VObject True
         [(''configVersion'', VString ''1.0''),
          (''pitch'', VObject True [(''value'', VNumber (Fin 45))]),
          (''slope'', VObject True [(''value'', VNumber (Fin (- 5)))]),
          (''center'', VObject True [(''value'', VNumber (Fin (- (5 / 10))))]),
          (''viewCone'', VObject True [(''value'', VNumber (Fin 40))]),
          (''invView'', VObject True [(''value'', VNumber (Fin 1))]),
          (''verticalAngle'', VObject True [(''value'', VNumber (Fin 0))]),
          (''DPI'', VObject True [(''value'', VNumber (Fin 338))]),
          (''screenW'', VObject True [(''value'', VNumber (Fin 250))]),
          (''screenH'', VObject True [(''value'', VNumber (Fin 250))]),
          (''flipImageX'', VObject True [(''value'', VNumber (Fin 0))]),
          (''flipImageY'', VObject True [(''value'', VNumber (Fin 0))]),
          (''flipSubp'', VObject True [(''value'', VNumber (Fin 0))])]"
  unfolding makeConfig_default
  by (simp add: default_store_def frozen_placeholder_def calibration_def tileHeight_def
      numViews_def trackballX_def trackballY_def targetX_def targetY_def targetZ_def
      targetDiam_def fovy_def depthiness_def inlineView_def)

section \<open>The computed getters on the default store\<close>

lemma default_cal_value:
  "cal_value default_store ''screenW'' = Inr (VNumber (Fin 250))"
  "cal_value default_store ''screenH'' = Inr (VNumber (Fin 250))"
  by (simp_all add: cal_value_def calibration_def default_store_def frozen_placeholder_def
      and_then_Inr)

lemma default_params:
  "tileHeight default_store = VNumber (Fin 320)"
  "numViews default_store = VNumber (Fin 2)"
  by (simp_all add: tileHeight_def numViews_def default_store_def)

lemma default_aspect: "aspect default_store = Inr (Fin 1)"
  by (simp add: aspect_def default_cal_value and_then_Inr js_div_def finite_result_def)

lemma default_tileWidth: "tileWidth default_store = Inr (Fin 320)"
  by (simp add: tileWidth_def default_aspect default_params and_then_Inr js_mul_def
      finite_result_def)

lemma default_numPixels: "numPixels default_store = Inr (Fin 204800)"
  by (simp add: numPixels_def default_tileWidth default_params and_then_Inr js_mul_def
      finite_result_def)

lemma sqrt_204800: "320 \<le> sqrt 204800" "256 < sqrt 204800" "sqrt 204800 \<le> 512"
  by (simp_all add: real_le_rsqrt real_less_rsqrt real_le_lsqrt)

lemma default_fb_argument: "js_max (js_sqrt (Fin 204800)) (Fin 320) = Fin (sqrt 204800)"
  using sqrt_204800 by (simp add: js_max_def)

lemma default_framebufferWidth: "framebufferWidth default_store = Inr (Fin 512)"
proof -
  have c: "\<lceil>log 2 (sqrt 204800)\<rceil> = 9"
    using sqrt_204800 by (intro ceiling_log2) simp_all
  have p: "js_pow2 (js_ceil (js_log2 (Fin (sqrt 204800)))) = Fin 512"
    using sqrt_204800 c by (simp add: finite_result_def)
  show ?thesis
    unfolding framebufferWidth_def default_numPixels default_tileWidth and_then_Inr
      default_fb_argument p ..
qed

lemma default_quiltWidth: "quiltWidth default_store = Inr (Fin 1)"
  by (simp add: quiltWidth_def default_framebufferWidth default_tileWidth and_then_Inr
      js_div_def finite_result_def)

lemma default_quiltHeight: "quiltHeight default_store = Inr (Fin 2)"
  by (simp add: quiltHeight_def default_quiltWidth default_params and_then_Inr
      js_div_def finite_result_def)

lemma default_framebufferHeight: "framebufferHeight default_store = Inr (Fin 1024)"
proof -
  have c: "\<lceil>log 2 (640::real)\<rceil> = 10"
    by (intro ceiling_log2) simp_all
  have m: "js_mul (Fin 2) (Fin 320) = Fin 640"
    by (simp add: js_mul_def finite_result_def)
  have p: "js_pow2 (js_ceil (js_log2 (Fin 640))) = Fin 1024"
    using c by (simp add: finite_result_def)
  show ?thesis
    unfolding framebufferHeight_def default_quiltHeight default_params and_then_Inr
      to_number.simps m p ..
qed

text \<open>
  C4. On the freshly constructed store the computed getters return \<open>aspect = 1\<close>,
  \<open>tileWidth = 320\<close>, \<open>framebufferWidth = 512\<close>, \<open>quiltWidth = 1\<close>, \<open>quiltHeight = 2\<close> and
  \<open>framebufferHeight = 1024\<close>.
\<close>

theorem default_geometry:
  "\<exists>s. makeConfig = Inr s
     \<and> aspect s = Inr (Fin 1)
     \<and> tileWidth s = Inr (Fin 320)
     \<and> framebufferWidth s = Inr (Fin 512)
     \<and> quiltWidth s = Inr (Fin 1)
     \<and> quiltHeight s = Inr (Fin 2)
     \<and> framebufferHeight s = Inr (Fin 1024)"
  unfolding makeConfig_default
  by (simp add: default_aspect default_tileWidth default_framebufferWidth default_quiltWidth
      default_quiltHeight default_framebufferHeight)

section \<open>Setters and getters\<close>

text \<open>
  C10. Each of the eleven parameter setters, called with any value \<open>v\<close>, stores exactly
  \<open>v\<close> in its own backing field and leaves the calibration and the ten other backing
  fields as they were.
\<close>

theorem setter_frame:
  "backing (set_tileHeight v s) = (backing s)\<lparr>priv_tileHeight := v\<rparr>
   \<and> backing (set_numViews v s) = (backing s)\<lparr>priv_numViews := v\<rparr>
   \<and> backing (set_trackballX v s) = (backing s)\<lparr>priv_trackballX := v\<rparr>
   \<and> backing (set_trackballY v s) = (backing s)\<lparr>priv_trackballY := v\<rparr>
   \<and> backing (set_targetX v s) = (backing s)\<lparr>priv_targetX := v\<rparr>
   \<and> backing (set_targetY v s) = (backing s)\<lparr>priv_targetY := v\<rparr>
   \<and> backing (set_targetZ v s) = (backing s)\<lparr>priv_targetZ := v\<rparr>
   \<and> backing (set_targetDiam v s) = (backing s)\<lparr>priv_targetDiam := v\<rparr>
   \<and> backing (set_fovy v s) = (backing s)\<lparr>priv_fovy := v\<rparr>
   \<and> backing (set_depthiness v s) = (backing s)\<lparr>priv_depthiness := v\<rparr>
   \<and> backing (set_inlineView v s) = (backing s)\<lparr>priv_inlineView := v\<rparr>"
  by (simp add: setter_defs ensureConfigChangeEvent_def)

text \<open>What a computed getter returns is decided by the backing fields alone.\<close>

lemma getters_backing:
  assumes "backing s' = backing s"
  shows "aspect s' = aspect s" and "tileWidth s' = tileWidth s"
    and "framebufferWidth s' = framebufferWidth s" and "quiltWidth s' = quiltWidth s"
    and "quiltHeight s' = quiltHeight s" and "framebufferHeight s' = framebufferHeight s"
    and "viewCone s' = viewCone s" and "tilt s' = tilt s" and "subp s' = subp s"
    and "pitch s' = pitch s"
proof -
  have cal: "cal_value s' x = cal_value s x" for x
    using assms by (simp add: cal_value_def calibration_def)
  have par: "tileHeight s' = tileHeight s" "numViews s' = numViews s"
    "depthiness s' = depthiness s"
    using assms by (simp_all add: tileHeight_def numViews_def depthiness_def)
  show a: "aspect s' = aspect s"
    by (simp add: aspect_def cal)
  show w: "tileWidth s' = tileWidth s"
    by (simp add: tileWidth_def a par)
  have np: "numPixels s' = numPixels s"
    by (simp add: numPixels_def w par)
  show fb: "framebufferWidth s' = framebufferWidth s"
    by (simp add: framebufferWidth_def np w)
  show qw: "quiltWidth s' = quiltWidth s"
    by (simp add: quiltWidth_def fb w)
  show qh: "quiltHeight s' = quiltHeight s"
    by (simp add: quiltHeight_def qw par)
  show "framebufferHeight s' = framebufferHeight s"
    by (simp add: framebufferHeight_def qh par)
  show "viewCone s' = viewCone s"
    by (simp add: viewCone_def cal par)
  show "tilt s' = tilt s"
    by (simp add: tilt_def cal)
  show "subp s' = subp s"
    by (simp add: subp_def cal)
  have "screenInches s' = screenInches s"
    by (simp add: screenInches_def cal)
  then show "pitch s' = pitch s"
    by (simp add: pitch_def cal)
qed

lemma read_backing:
  assumes "backing s' = backing s"
  shows "fst (read g s') = fst (read g s)"
  using getters_backing [OF assms] by (cases g) simp_all

text \<open>
  C9. Reading a computed getter leaves the store as it was, and a second read, with no
  mutation in between, returns what the first one returned. What is returned depends on
  the calibration and the parameters only: two stores with the same backing fields give
  the same result.
\<close>

theorem getters_pure:
  "snd (read g s) = s \<and> fst (read g (snd (read g s))) = fst (read g s)
   \<and> (backing s' = backing s \<longrightarrow> fst (read g s') = fst (read g s))"
proof -
  have "snd (read g s) = s"
    by (cases g) simp_all
  moreover have "fst (read g s') = fst (read g s)" if "backing s' = backing s"
    using that by (rule read_backing)
  ultimately show ?thesis
    by simp
qed

section \<open>The callbacks of the client\<close>

text \<open>
  C6. When the message of the provider lists no device, an error is written to the
  console and nothing else happens: the callback returns normally, the calibration and
  every other field of the store are what they were, no notification is queued, and every
  computed getter returns what it returned before.
\<close>

theorem no_device_found:
  "\<exists>s'. onMessage \<lparr>devices = []\<rparr> s = Inr s'
     \<and> console s' = console s @ [ConsoleError ''No HoloPlay devices found!'']
     \<and> calibration s' = calibration s
     \<and> backing s' = backing s
     \<and> pending s' = pending s
     \<and> microtasks s' = microtasks s
     \<and> listeners s' = listeners s
     \<and> delivered s' = delivered s
     \<and> (\<forall>g. fst (read g s') = fst (read g s))"
proof -
  let ?s' = "s\<lparr>console := console s @ [ConsoleError ''No HoloPlay devices found!'']\<rparr>"
  have "onMessage \<lparr>devices = []\<rparr> s = Inr ?s'"
    by (simp add: onMessage_def)
  moreover have "fst (read g ?s') = fst (read g s)" for g
    by (rule read_backing) simp
  ultimately show ?thesis
    by (simp add: calibration_def)
qed

section \<open>The size of the framebuffer\<close>


lemma pow2_ceil: "js_pow2 (js_ceil (Fin x)) = Fin (2 powr of_int \<lceil>x\<rceil>)"
  by (simp add: finite_result_def signed_zero_def)



subsection \<open>Integer sizes\<close>

lemma integer_sizes:
  fixes w h n :: int
  assumes "tileWidth s = Inr (Fin (of_int w))"
    and "tileHeight s = VNumber (Fin (of_int h))"
    and "numViews s = VNumber (Fin (of_int n))"
    and "1 \<le> w" and "1 \<le> h" and "1 \<le> n"
  shows "numPixels s = Inr (Fin (of_int (w * h * n)))"
    and "js_max (js_sqrt (Fin (of_int (w * h * n)))) (Fin (of_int w)) =
      Fin (max (sqrt (of_int (w * h * n))) (of_int w))"
    and "0 < max (sqrt (real_of_int (w * h * n))) (of_int w)"
proof -
  define x where "x = real_of_int (w * h * n)"
  have "0 < w * h * n"
    using assms(4,5,6) by simp
  then have x: "0 < x"
    unfolding x_def by linarith
  have wh: "real_of_int w * real_of_int h \<noteq> 0"
    using assms(4,5) by simp
  have "js_mul (js_mul (Fin (of_int w)) (Fin (of_int h))) (Fin (of_int n)) = Fin x"
    using wh x assms(6) by (simp add: js_mul_def finite_result_def x_def)
  then have "numPixels s = Inr (Fin x)"
    by (simp add: numPixels_def assms(1,2,3) and_then_Inr)
  then show "numPixels s = Inr (Fin (of_int (w * h * n)))"
    by (simp only: x_def)
  have wpos: "(0::real) < of_int w"
    using assms(4) by simp
  have "js_max (js_sqrt (Fin x)) (Fin (of_int w)) = Fin (max (sqrt x) (of_int w))"
    using wpos x by (auto simp: js_max_def max_def)
  then show "js_max (js_sqrt (Fin (of_int (w * h * n)))) (Fin (of_int w)) =
      Fin (max (sqrt (of_int (w * h * n))) (of_int w))"
    by (simp only: x_def)
  show "0 < max (sqrt (real_of_int (w * h * n))) (of_int w)"
    using wpos by (simp add: less_max_iff_disj)
qed


subsection \<open>The rounding of the logarithm\<close>

lemma square_shrunk:
  fixes P e :: real
  shows "P\<^sup>2 - 2 * e * P\<^sup>2 \<le> (P * (1 - e))\<^sup>2"
proof -
  have "(P * (1 - e))\<^sup>2 = P\<^sup>2 - 2 * e * P\<^sup>2 + (e * P)\<^sup>2"
    by (simp add: power2_eq_square algebra_simps)
  then show ?thesis
    by simp
qed

lemma square_grown:
  fixes Q e :: real
  assumes "0 \<le> e" and "e \<le> 1"
  shows "(Q * (1 + e))\<^sup>2 \<le> Q\<^sup>2 + 3 * e * Q\<^sup>2"
proof -
  have "e * e \<le> e * 1"
    using assms by (intro mult_left_mono) simp_all
  then have "e\<^sup>2 * Q\<^sup>2 \<le> e * Q\<^sup>2"
    by (intro mult_right_mono) (simp_all add: power2_eq_square)
  moreover have "(Q * (1 + e))\<^sup>2 = Q\<^sup>2 + 2 * e * Q\<^sup>2 + e\<^sup>2 * Q\<^sup>2"
    by (simp add: power2_eq_square algebra_simps)
  ultimately show ?thesis
    by simp
qed

lemma int_below_power:
  fixes w :: int and P :: nat
  assumes "real_of_int w < 2 ^ P"
  shows "real_of_int w \<le> 2 ^ P - 1"
proof -
  have "real_of_int w < real_of_int (2 ^ P)"
    using assms by simp
  then have "w < 2 ^ P"
    by (simp only: of_int_less_iff)
  then have "w \<le> 2 ^ P - 1"
    by simp
  then have "real_of_int w \<le> real_of_int (2 ^ P - 1)"
    by (simp only: of_int_le_iff)
  then show ?thesis
    by simp
qed

lemma int_above_power:
  fixes w :: int and P :: nat
  assumes "2 ^ P < real_of_int w"
  shows "2 ^ P + 1 \<le> real_of_int w"
proof -
  have "real_of_int (2 ^ P) < real_of_int w"
    using assms by simp
  then have "2 ^ P < w"
    by (simp only: of_int_less_iff)
  then have "2 ^ P + 1 \<le> w"
    by simp
  then have "real_of_int (2 ^ P + 1) \<le> real_of_int w"
    by (simp only: of_int_le_iff)
  then show ?thesis
    by simp
qed

lemma sqrt_below_power:
  fixes N :: int and P :: nat
  assumes "0 \<le> N" and "sqrt (of_int N) < 2 ^ P"
  shows "real_of_int N \<le> (2 ^ P)\<^sup>2 - 1"
proof -
  have "sqrt (of_int N) < sqrt ((2 ^ P)\<^sup>2)"
    using assms(2) by simp
  then have "real_of_int N < (2 ^ P)\<^sup>2"
    by (simp only: real_sqrt_less_iff)
  then have "real_of_int N < 2 ^ (2 * P)"
    by (simp add: power_mult [symmetric] mult.commute)
  then have "real_of_int N \<le> 2 ^ (2 * P) - 1"
    by (rule int_below_power)
  then show ?thesis
    by (simp add: power_mult [symmetric] mult.commute)
qed

lemma sqrt_above_power:
  fixes N :: int and P :: nat
  assumes "2 ^ P < sqrt (of_int N)"
  shows "(2 ^ P)\<^sup>2 + 1 \<le> real_of_int N"
proof -
  have "sqrt ((2 ^ P)\<^sup>2) < sqrt (of_int N)"
    using assms by simp
  then have "(2 ^ P)\<^sup>2 < real_of_int N"
    by (simp only: real_sqrt_less_iff)
  then have "2 ^ (2 * P) < real_of_int N"
    by (simp add: power_mult [symmetric] mult.commute)
  then have "2 ^ (2 * P) + 1 \<le> real_of_int N"
    by (rule int_above_power)
  then show ?thesis
    by (simp add: power_mult [symmetric] mult.commute)
qed

lemma divide_by_small:
  fixes a c :: real
  assumes "0 < c" and "c \<le> 1"
  shows "a \<le> 0 \<Longrightarrow> a / c \<le> a" and "0 \<le> a \<Longrightarrow> a \<le> a / c"
proof -
  assume "a \<le> 0"
  then have "a * 1 \<le> a * c"
    using assms(2) by (intro mult_left_mono_neg) simp_all
  then show "a / c \<le> a"
    using assms(1) by (simp add: pos_divide_le_eq)
next
  assume "0 \<le> a"
  then have "a * c \<le> a * 1"
    using assms(2) by (intro mult_left_mono) simp_all
  then show "a \<le> a / c"
    using assms(1) by (simp add: pos_le_divide_eq)
qed

lemma log2_below:
  fixes m P x :: real
  assumes "0 < m" and "0 < P" and "0 < x" and "x < 1" and "m \<le> P * (1 - x)"
  shows "log 2 m \<le> log 2 P - x"
proof -
  have c: "0 < ln (2::real)" "ln (2::real) \<le> 1"
    using ln_2_less_1 by simp_all
  have "ln (1 - x) \<le> - x"
    using ln_le_minus_one [of "1 - x"] assms(4) by simp
  moreover from this have "ln (1 - x) / ln 2 \<le> ln (1 - x)"
    using assms(3) by (intro divide_by_small(1) [OF c]) simp
  ultimately have "ln (1 - x) / ln 2 \<le> - x"
    by linarith
  then have "log 2 (1 - x) \<le> - x"
    by (simp only: log_def)
  moreover have "log 2 m \<le> log 2 (P * (1 - x))"
    using assms by simp
  moreover have "log 2 (P * (1 - x)) = log 2 P + log 2 (1 - x)"
    using assms by (simp add: log_mult)
  ultimately show ?thesis
    by linarith
qed

lemma log2_above:
  fixes m Q x :: real
  assumes "0 < Q" and "0 \<le> x" and "x \<le> 1 / 2" and "Q * (1 + x) \<le> m"
  shows "log 2 Q + x / 2 \<le> log 2 m"
proof -
  have c: "0 < ln (2::real)" "ln (2::real) \<le> 1"
    using ln_2_less_1 by simp_all
  have "x - x\<^sup>2 \<le> ln (1 + x)"
    using assms(2,3) by (intro ln_one_plus_pos_lower_bound) simp_all
  moreover have "x * x \<le> x * (1 / 2)"
    using assms(2,3) by (intro mult_left_mono) simp_all
  ultimately have l: "x / 2 \<le> ln (1 + x)"
    by (simp add: power2_eq_square)
  then have "ln (1 + x) \<le> ln (1 + x) / ln 2"
    using assms(2) by (intro divide_by_small(2) [OF c]) simp
  with l have "x / 2 \<le> ln (1 + x) / ln 2"
    by linarith
  then have "x / 2 \<le> log 2 (1 + x)"
    by (simp only: log_def)
  moreover have "0 < Q * (1 + x)"
    using assms(1,2) by (intro mult_pos_pos) simp_all
  then have "log 2 (Q * (1 + x)) \<le> log 2 m"
    using assms(4) by simp
  moreover have "log 2 (Q * (1 + x)) = log 2 Q + log 2 (1 + x)"
    using assms by (simp add: log_mult)
  ultimately show ?thesis
    by linarith
qed



lemma margin_between:
  fixes w N :: int and K :: nat and m :: real
  assumes w: "1 \<le> w" "w \<le> 2 ^ 32" and N: "1 \<le> N" "N \<le> 2 ^ 32"
    and m: "m = max (sqrt (of_int N)) (of_int w)"
    and lo: "2 ^ K < m" and hi: "m < 2 ^ Suc K"
  shows "of_nat K + 1 / 2 ^ 35 \<le> log 2 m" and "log 2 m \<le> of_nat (Suc K) - 1 / 2 ^ 35"
proof -
  define e :: real where "e = 1 / 2 ^ 34"
  define Q :: real where "Q = 2 ^ K"
  define P :: real where "P = 2 ^ Suc K"
  have e: "0 < e" "e < 1" "e \<le> 1 / 2" "2 ^ 32 * e \<le> 1 / 4" "e / 2 = 1 / 2 ^ 35" "1 / 2 ^ 35 \<le> e"
    by (simp_all add: e_def)
  have Npos: "0 \<le> real_of_int N"
    using N(1) by simp
  have "real_of_int N \<le> real_of_int (2 ^ 32)"
    using N(2) by (simp only: of_int_le_iff)
  then have "real_of_int N \<le> (2 ^ 16)\<^sup>2"
    by simp
  then have sqrtN: "sqrt (of_int N) \<le> 2 ^ 16"
    by (intro real_le_lsqrt) simp_all
  have "real_of_int w \<le> real_of_int (2 ^ 32)"
    using w(2) by (simp only: of_int_le_iff)
  then have wr: "real_of_int w \<le> 2 ^ 32"
    by simp
  have m32: "m \<le> 2 ^ 32"
    using sqrtN wr unfolding m by simp
  have Qpos: "0 < Q" and Ppos: "0 < P"
    by (simp_all add: Q_def P_def)
  have mpos: "0 < m"
    using lo Qpos unfolding Q_def by linarith
  have K: "K < 32"
  proof (rule ccontr)
    assume "\<not> K < 32"
    then have "(2::real) ^ 32 \<le> 2 ^ K"
      by (intro power_increasing) simp_all
    with lo m32 show False
      by linarith
  qed
  then have "(2::real) ^ Suc K \<le> 2 ^ 32"
    by (intro power_increasing) simp_all
  then have P32: "P \<le> 2 ^ 32"
    by (simp only: P_def)
  have Q32: "Q \<le> 2 ^ 32"
    using P32 by (simp add: P_def Q_def)
  have Pe: "P * e \<le> 1 / 4"
  proof -
    have "P * e \<le> 2 ^ 32 * e"
      using P32 e(1) by (intro mult_right_mono) simp_all
    with e(4) show ?thesis by linarith
  qed
  have Qe: "Q * e \<le> 1 / 4"
  proof -
    have "Q * e \<le> 2 ^ 32 * e"
      using Q32 e(1) by (intro mult_right_mono) simp_all
    with e(4) show ?thesis by linarith
  qed
  have PQ: "P * (1 - e) = P - P * e" "Q * (1 + e) = Q + Q * e"
    by (simp_all add: algebra_simps)
  have half: "P / 2 \<le> P * (1 - e)"
    using Pe Ppos PQ(1) e(3)
  proof -
    have "P * e \<le> P * (1 / 2)"
      using e(3) Ppos by (intro mult_left_mono) simp_all
    then show ?thesis
      unfolding PQ(1) by simp
  qed
  have upper: "m \<le> P * (1 - e)"
  proof -
    have "real_of_int w < 2 ^ Suc K"
      using hi unfolding m by simp
    then have "real_of_int w \<le> 2 ^ Suc K - 1"
      by (rule int_below_power)
    then have a: "real_of_int w \<le> P * (1 - e)"
      unfolding PQ(1) P_def [symmetric] using Pe by linarith
    have s: "sqrt (of_int N) < 2 ^ Suc K"
      using hi unfolding m by simp
    have b: "sqrt (of_int N) \<le> P * (1 - e)"
    proof (cases "Suc K \<le> 16")
      case True
      have "real_of_int N \<le> (2 ^ Suc K)\<^sup>2 - 1"
        using N(1) s by (intro sqrt_below_power) simp_all
      then have NP: "real_of_int N \<le> P\<^sup>2 - 1"
        by (simp only: P_def)
      have "(2::real) ^ Suc K \<le> 2 ^ 16"
        using True by (intro power_increasing) simp_all
      then have "P \<le> 2 ^ 16"
        by (simp only: P_def)
      then have "P\<^sup>2 \<le> (2 ^ 16)\<^sup>2"
        using Ppos by (intro power_mono) simp_all
      then have P2: "P\<^sup>2 \<le> 2 ^ 32"
        by simp
      have "e * P\<^sup>2 \<le> e * 2 ^ 32"
        using P2 e(1) by (intro mult_left_mono) simp_all
      then have "2 * e * P\<^sup>2 \<le> 1"
        using e(4) by (simp add: mult.commute)
      then have "P\<^sup>2 - 1 \<le> (P * (1 - e))\<^sup>2"
        using square_shrunk [of P e] by linarith
      with NP have "real_of_int N \<le> (P * (1 - e))\<^sup>2"
        by linarith
      moreover have "0 \<le> P * (1 - e)"
        using half Ppos by linarith
      ultimately show ?thesis
        by (intro real_le_lsqrt)
    next
      case False
      then have "(2::real) ^ 17 \<le> 2 ^ Suc K"
        by (intro power_increasing) simp_all
      then have "2 ^ 17 \<le> P"
        by (simp only: P_def)
      then have "2 ^ 16 \<le> P / 2"
        by simp
      with sqrtN half show ?thesis
        by linarith
    qed
    from a b show ?thesis
      unfolding m by simp
  qed
  have "log 2 m \<le> log 2 P - e"
    using mpos Ppos e(1,2) upper by (rule log2_below)
  moreover have "log 2 P = of_nat (Suc K)"
    unfolding P_def by (simp only: log_nat_power [of 2 2 "Suc K"]) simp
  ultimately show "log 2 m \<le> of_nat (Suc K) - 1 / 2 ^ 35"
    using e(6) by linarith
  have lower: "Q * (1 + e) \<le> m"
  proof (cases "2 ^ K < real_of_int w")
    case True
    then have "2 ^ K + 1 \<le> real_of_int w"
      by (rule int_above_power)
    then have "Q * (1 + e) \<le> real_of_int w"
      unfolding PQ(2) Q_def [symmetric] using Qe by linarith
    then show ?thesis
      unfolding m by simp
  next
    case False
    with lo have s: "2 ^ K < sqrt (of_int N)"
      unfolding m less_max_iff_disj by blast
    then have "(2 ^ K)\<^sup>2 + 1 \<le> real_of_int N"
      by (rule sqrt_above_power)
    then have QN: "Q\<^sup>2 + 1 \<le> real_of_int N"
      by (simp only: Q_def)
    have "Q \<le> 2 ^ 16"
      using s sqrtN unfolding Q_def by linarith
    then have "Q\<^sup>2 \<le> (2 ^ 16)\<^sup>2"
      using Qpos by (intro power_mono) simp_all
    then have Q2: "Q\<^sup>2 \<le> 2 ^ 32"
      by simp
    have "e * Q\<^sup>2 \<le> e * 2 ^ 32"
      using Q2 e(1) by (intro mult_left_mono) simp_all
    then have "3 * e * Q\<^sup>2 \<le> 1"
      using e(4) by (simp add: mult.commute)
    moreover have "(Q * (1 + e))\<^sup>2 \<le> Q\<^sup>2 + 3 * e * Q\<^sup>2"
      using e(1,2) by (intro square_grown) simp_all
    ultimately have "(Q * (1 + e))\<^sup>2 \<le> real_of_int N"
      using QN by linarith
    then have "Q * (1 + e) \<le> sqrt (of_int N)"
      by (rule real_le_rsqrt)
    then show ?thesis
      unfolding m by simp
  qed
  have "0 \<le> e"
    using e(1) by simp
  with Qpos have "log 2 Q + e / 2 \<le> log 2 m"
    using e(3) lower by (rule log2_above)
  moreover have "log 2 Q = of_nat K"
    unfolding Q_def by (simp only: log_nat_power [of 2 2 K]) simp
  ultimately show "of_nat K + 1 / 2 ^ 35 \<le> log 2 m"
    using e(5) by linarith
qed


lemma ceiling_log2_stable:
  fixes w N :: int and m l :: real
  assumes w: "1 \<le> w" "w \<le> 2 ^ 32" and N: "1 \<le> N" "N \<le> 2 ^ 32"
    and m: "m = max (sqrt (of_int N)) (of_int w)"
    and near: "\<bar>l - log 2 m\<bar> < 1 / 2 ^ 35"
    and exact: "log 2 m = of_int \<lceil>log 2 m\<rceil> \<Longrightarrow> l = log 2 m"
  shows "\<lceil>l\<rceil> = \<lceil>log 2 m\<rceil>"
proof (cases "log 2 m = of_int \<lceil>log 2 m\<rceil>")
  case True
  then show ?thesis
    using exact by simp
next
  case False
  define k where "k = \<lceil>log 2 m\<rceil>"
  have m1: "1 \<le> m"
    using w(1) unfolding m by (simp add: le_max_iff_disj)
  then have mpos: "0 < m"
    by linarith
  have "0 \<le> log 2 m"
    using m1 by simp
  moreover have up: "log 2 m \<le> of_int k"
    unfolding k_def by (rule le_of_int_ceiling)
  ultimately have "0 \<le> k"
    by linarith
  have strict: "log 2 m < of_int k"
    using up False unfolding k_def by linarith
  have down: "of_int k - 1 < log 2 m"
    unfolding k_def using ceiling_correct [of "log 2 m"] by linarith
  have "k \<noteq> 0"
    using strict \<open>0 \<le> log 2 m\<close> by auto
  with \<open>0 \<le> k\<close> have k1: "1 \<le> k"
    by linarith
  define K where "K = nat (k - 1)"
  have K: "real K = of_int k - 1" "real (Suc K) = of_int k"
    using k1 by (simp_all add: K_def)
  have "2 powr (real K) < m"
    using down mpos unfolding K(1) by (simp add: less_log_iff)
  then have lo: "2 ^ K < m"
    by (simp add: powr_realpow)
  have "m < 2 powr (real (Suc K))"
    using strict mpos unfolding K(2) by (simp add: log_less_iff)
  moreover have "(2::real) powr (real (Suc K)) = 2 ^ Suc K"
    by (rule powr_realpow) simp
  ultimately have hi: "m < 2 ^ Suc K"
    by (simp only:)
  have "real K + 1 / 2 ^ 35 \<le> log 2 m" and "log 2 m \<le> real (Suc K) - 1 / 2 ^ 35"
    using margin_between [OF w N m lo hi] by simp_all
  then have "of_int k - 1 < l" and "l \<le> of_int k"
    using near unfolding K by linarith+
  then have "\<lceil>l\<rceil> = k"
    by (intro ceiling_unique) simp_all
  then show ?thesis
    by (simp only: k_def)
qed

text \<open>
  In the range of the amended C2 the result of \<open>framebufferWidth\<close> does not depend on
  how \<^verbatim>\<open>Math.log2\<close> and \<^verbatim>\<open>Math.sqrt\<close> round: whatever number \<open>l\<close> stands for
  \<^verbatim>\<open>Math.log2(Math.max(Math.sqrt(numPixels), this.tileWidth))\<close>, if it is within \<open>2\<^sup>-\<^sup>3\<^sup>5\<close> of
  the exact logarithm, and is the exact logarithm where that is an integer, then
  \<^verbatim>\<open>2 ** Math.ceil(l)\<close> is what the getter of the model returns.
\<close>

lemma framebufferWidth_rounding_stable:
  fixes w h n :: int and l :: real
  assumes "tileWidth s = Inr (Fin (of_int w))"
    and "tileHeight s = VNumber (Fin (of_int h))"
    and "numViews s = VNumber (Fin (of_int n))"
    and "1 \<le> w" and "1 \<le> h" and "1 \<le> n" and "w * h * n \<le> 2 ^ 32"
    and m: "m = max (sqrt (of_int (w * h * n))) (of_int w)"
    and near: "\<bar>l - log 2 m\<bar> < 1 / 2 ^ 35"
    and exact: "log 2 m = of_int \<lceil>log 2 m\<rceil> \<Longrightarrow> l = log 2 m"
  shows "framebufferWidth s = Inr (js_pow2 (js_ceil (Fin l)))"
proof -
  have pos: "0 < m"
    unfolding m by (rule integer_sizes(3) [OF assms(1-6)])
  have "framebufferWidth s = Inr (js_pow2 (js_ceil (js_log2 (Fin m))))"
    using integer_sizes(1,2) [OF assms(1-6)] assms(1)
    by (simp add: framebufferWidth_def and_then_Inr m del: js_ceil.simps js_pow2.simps)
  then have ideal: "framebufferWidth s = Inr (Fin (2 powr of_int \<lceil>log 2 m\<rceil>))"
    using pos by (simp add: pow2_ceil del: js_ceil.simps js_pow2.simps)
  have "1 * 1 \<le> h * n"
    using assms(5,6) by (intro mult_mono) simp_all
  then have hn: "1 \<le> h * n"
    by simp
  then have "w * 1 \<le> w * (h * n)"
    using assms(4) by (intro mult_left_mono) simp_all
  then have wN: "w \<le> w * h * n"
    by (simp add: mult.assoc)
  then have w32: "w \<le> 2 ^ 32"
    using assms(7) by linarith
  have N1: "1 \<le> w * h * n"
    using assms(4) wN by linarith
  have "\<lceil>l\<rceil> = \<lceil>log 2 m\<rceil>"
    using assms(4) w32 N1 assms(7) m near exact by (rule ceiling_log2_stable)
  then show ?thesis
    using ideal by (simp add: pow2_ceil del: js_ceil.simps js_pow2.simps)
qed






section \<open>The quilt\<close>

lemma finite_result_val [simp]:
  "finite_num (finite_result neg r)" "val (finite_result neg r) = r"
  by (simp_all add: finite_result_def signed_zero_def)

lemma finite_not_special [simp]:
  "finite_num a \<Longrightarrow> \<not> is_nan a" "finite_num a \<Longrightarrow> \<not> is_inf a"
  "finite_num a \<Longrightarrow> is_zero a \<longleftrightarrow> val a = 0"
  by (cases a; simp)+

lemma mul_finite:
  assumes "finite_num a" and "finite_num b"
  shows "finite_num (js_mul a b)" and "val (js_mul a b) = val a * val b"
  using assms by (simp_all add: js_mul_def)


lemma ceil_finite:
  assumes "finite_num a"
  shows "finite_num (js_ceil a)" and "val (js_ceil a) = of_int \<lceil>val a\<rceil>"
  using assms by (cases a; simp)+



lemma ge_finite:
  assumes "finite_num a" and "finite_num b"
  shows "js_ge a b \<longleftrightarrow> val b \<le> val a"
  using assms by (cases a; cases b; simp)








subsection \<open>The rounding of the quotients\<close>

lemma quotient_between:
  fixes a b :: int
  assumes "0 < b" and "\<not> b dvd a"
  shows "of_int (a div b) + 1 / of_int b \<le> real_of_int a / of_int b"
    and "real_of_int a / of_int b \<le> of_int (a div b) + 1 - 1 / of_int b"
proof -
  have "0 \<le> a mod b" and "a mod b < b"
    using assms(1) by simp_all
  moreover have "a mod b \<noteq> 0"
    using assms(2) by (simp add: dvd_eq_mod_eq_0)
  ultimately have r: "1 \<le> a mod b" "a mod b \<le> b - 1"
    by linarith+
  have b: "(0::real) < of_int b"
    using assms(1) by simp
  have "real_of_int a = of_int (a div b) * of_int b + of_int (a mod b)"
    by (simp flip: of_int_mult of_int_add)
  then have q: "real_of_int a / of_int b = of_int (a div b) + of_int (a mod b) / of_int b"
    using b by (simp add: field_simps)
  have "(1::real) \<le> of_int (a mod b)" "real_of_int (a mod b) \<le> of_int b - 1"
    using r by linarith+
  then have "1 / real_of_int b \<le> of_int (a mod b) / of_int b"
    and "real_of_int (a mod b) / of_int b \<le> (of_int b - 1) / of_int b"
    using b by (simp_all add: divide_right_mono)
  moreover have "(real_of_int b - 1) / of_int b = 1 - 1 / of_int b"
    using b by (simp add: field_simps)
  ultimately show "of_int (a div b) + 1 / of_int b \<le> real_of_int a / of_int b"
    and "real_of_int a / of_int b \<le> of_int (a div b) + 1 - 1 / of_int b"
    unfolding q by linarith+
qed

lemma quotient_stable:
  fixes a b :: int and q :: real
  assumes "0 < b" and near: "\<bar>q - of_int a / of_int b\<bar> < 1 / of_int b"
    and exact: "b dvd a \<Longrightarrow> q = of_int a / of_int b"
  shows "\<lfloor>q\<rfloor> = \<lfloor>real_of_int a / of_int b\<rfloor>" and "\<lceil>q\<rceil> = \<lceil>real_of_int a / of_int b\<rceil>"
proof -
  have "\<lfloor>q\<rfloor> = \<lfloor>real_of_int a / of_int b\<rfloor> \<and> \<lceil>q\<rceil> = \<lceil>real_of_int a / of_int b\<rceil>"
  proof (cases "b dvd a")
    case True
    then show ?thesis
      using exact by simp
  next
    case False
    let ?d = "a div b"
    have between: "of_int ?d < q" "q < of_int ?d + 1"
      using quotient_between [OF assms(1) False] near by linarith+
    have "0 < 1 / real_of_int b"
      using assms(1) by simp
    then have exact_between: "of_int ?d < real_of_int a / of_int b"
      "real_of_int a / of_int b < of_int ?d + 1"
      using quotient_between [OF assms(1) False] by linarith+
    have "\<lfloor>q\<rfloor> = ?d" "\<lfloor>real_of_int a / of_int b\<rfloor> = ?d"
      using between exact_between by (simp_all add: floor_unique)
    moreover have "\<lceil>q\<rceil> = ?d + 1" "\<lceil>real_of_int a / of_int b\<rceil> = ?d + 1"
      using between exact_between by (intro ceiling_unique; simp)+
    ultimately show ?thesis
      by simp
  qed
  then show "\<lfloor>q\<rfloor> = \<lfloor>real_of_int a / of_int b\<rfloor>" and "\<lceil>q\<rceil> = \<lceil>real_of_int a / of_int b\<rceil>"
    by simp_all
qed


text \<open>
  In the range of the amended C3 the comparison does not depend on how the two divisions
  round: whatever numbers \<open>q\<close> and \<open>c\<close> stand for \<^verbatim>\<open>this.framebufferWidth / this.tileWidth\<close>
  and \<^verbatim>\<open>this.numViews / this.quiltWidth\<close>, if each is nearer to the exact quotient than
  one over its divisor, and is the exact quotient where that is an integer, then
  \<^verbatim>\<open>Math.floor(q) * Math.ceil(c) >= numViews\<close> holds.
\<close>

lemma quilt_rounding_stable:
  fixes w n F :: int and q c :: real
  assumes "1 \<le> w" and "w \<le> F" and "1 \<le> n"
    and "\<bar>q - of_int F / of_int w\<bar> < 1 / of_int w"
    and "w dvd F \<Longrightarrow> q = of_int F / of_int w"
    and "\<bar>c - of_int n / of_int (F div w)\<bar> < 1 / of_int (F div w)"
    and "F div w dvd n \<Longrightarrow> c = of_int n / of_int (F div w)"
  shows "js_ge (js_mul (js_floor (Fin q)) (js_ceil (Fin c))) (Fin (of_int n))"
proof -
  have w: "0 < w"
    using assms(1) by simp
  have "\<lfloor>q\<rfloor> = \<lfloor>real_of_int F / of_int w\<rfloor>"
    using w assms(4,5) by (rule quotient_stable(1))
  then have fl: "\<lfloor>q\<rfloor> = F div w"
    by (simp add: floor_divide_of_int_eq)
  have "w div w \<le> F div w"
    using assms(2) w by (intro zdiv_mono1) simp_all
  then have d: "1 \<le> F div w"
    using w by simp
  then have dpos: "0 < F div w"
    by simp
  have "\<lceil>c\<rceil> = \<lceil>real_of_int n / of_int (F div w)\<rceil>"
    using dpos assms(6,7) by (rule quotient_stable(2))
  moreover have "real_of_int n / of_int (F div w) \<le> of_int \<lceil>real_of_int n / of_int (F div w)\<rceil>"
    by (rule le_of_int_ceiling)
  ultimately have "real_of_int n / of_int (F div w) \<le> of_int \<lceil>c\<rceil>"
    by simp
  then have "real_of_int n \<le> of_int \<lceil>c\<rceil> * of_int (F div w)"
    using dpos by (simp add: pos_divide_le_eq)
  moreover have fq: "finite_num (js_floor (Fin q))" "val (js_floor (Fin q)) = of_int (F div w)"
    by (simp_all add: fl)
  moreover have fc: "finite_num (js_ceil (Fin c))" "val (js_ceil (Fin c)) = of_int \<lceil>c\<rceil>"
    by (simp_all add: ceil_finite)
  ultimately have "val (Fin (of_int n)) \<le> val (js_floor (Fin q)) * val (js_ceil (Fin c))"
    by (simp add: mult.commute)
  then have "val (Fin (of_int n)) \<le> val (js_mul (js_floor (Fin q)) (js_ceil (Fin c)))"
    by (simp only: mul_finite(2) [OF fq(1) fc(1)])
  moreover have "finite_num (js_mul (js_floor (Fin q)) (js_ceil (Fin c)))"
    using fq(1) fc(1) by (rule mul_finite(1))
  ultimately show ?thesis
    by (subst ge_finite) simp_all
qed

section \<open>The calibration is frozen\<close>

lemma deepFreeze_succeeds:
  "v \<noteq> VNull \<Longrightarrow> \<exists>v'. deepFreeze v = Inr v'"
  "\<exists>ps'. forEach_prop ps = Inr ps'"
proof (induction v and ps rule: deepFreeze_forEach_prop.induct)
  case (6 fr ps)
  then show ?case by (auto simp: and_then_Inr)
next
  case (8 kv ps)
  then show ?case by (auto simp: and_then_Inr)
qed simp_all

lemma deepFreeze_content:
  "deepFreeze v = Inr v' \<Longrightarrow> content v' = content v"
  "forEach_prop ps = Inr ps' \<Longrightarrow> content_props ps' = content_props ps"
proof (induction v and ps arbitrary: v' and ps' rule: deepFreeze_forEach_prop.induct)
  case (6 fr ps)
  then show ?case
    by (auto simp: and_then_def split: sum.splits)
next
  case (8 kv ps)
  then show ?case
    by (auto simp: and_then_def split: sum.splits if_splits)
qed auto

lemma deepFreeze_deep_frozen:
  "deepFreeze v = Inr v' \<Longrightarrow> no_frozen_gap v \<Longrightarrow> deep_frozen v'"
  "forEach_prop ps = Inr ps' \<Longrightarrow> freezable_props ps \<Longrightarrow> deep_frozen_props ps'"
proof (induction v and ps arbitrary: v' and ps' rule: deepFreeze_forEach_prop.induct)
  case (6 fr ps)
  then show ?case
    by (auto simp: and_then_def split: sum.splits)
next
  case (8 kv ps)
  obtain k c where kv: "kv = (k, c)"
    by (cases kv)
  show ?case
  proof (cases c)
    case (VObject fr qs)
    with 8 kv show ?thesis
      by (auto simp: and_then_def split: sum.splits if_splits)
  qed (use 8 kv in \<open>auto simp: and_then_def split: sum.splits if_splits\<close>)
qed auto

lemma deep_frozen_lookup:
  "deep_frozen_props ps \<Longrightarrow> map_of ps p = Some c \<Longrightarrow> deep_frozen c"
  by (induction ps) (auto split: if_splits)

lemma put_prop_same: "map_of ps p = Some c \<Longrightarrow> put_prop p c ps = ps"
  by (induction ps) (auto split: if_splits)

lemma frozen_assign:
  "deep_frozen v \<Longrightarrow>
     assign_path strict v path x = Inl TypeError \<or> assign_path strict v path x = Inr v"
proof (induction strict v path x rule: assign_path.induct)
  case (5 strict fr ps p q path x)
  show ?case
  proof (cases "map_of ps p")
    case None
    then show ?thesis by simp
  next
    case (Some c)
    with 5 have "deep_frozen c"
      by (auto intro: deep_frozen_lookup)
    with 5 Some show ?thesis
      by (auto simp: and_then_def put_prop_same split: sum.splits)
  qed
qed auto


lemma set_calibration_result:
  assumes "deepFreeze v = Inr v'"
  shows "set_calibration v s =
    Inr (ensureConfigChangeEvent (s\<lparr>backing := (backing s)\<lparr>priv_calibration := v'\<rparr>\<rparr>))"
  using assms by (simp add: set_calibration_def and_then_Inr)

lemma set_calibration_stored:
  assumes "set_calibration v s = Inr s'"
  shows "deepFreeze v = Inr (calibration s')"
  using assms
  by (auto simp: set_calibration_def and_then_def calibration_def ensureConfigChangeEvent_def
      split: sum.splits if_splits)

text \<open>
  C5 (as amended). When a value is assigned through the calibration setter and no
  object below its top was frozen before while holding an object that was not, then the
  stored record is frozen with every object below it, it holds the data that was
  assigned, and an assignment to any place of it throws or leaves it as it is.
\<close>

theorem calibration_frozen:
  assumes "set_calibration v s = Inr s'" and "no_frozen_gap v"
  shows "deep_frozen (calibration s') \<and> content (calibration s') = content v
    \<and> (\<forall>strict path x.
          assign_path strict (calibration s') path x = Inl TypeError
          \<or> assign_path strict (calibration s') path x = Inr (calibration s'))"
proof -
  have stored: "deepFreeze v = Inr (calibration s')"
    using assms(1) by (rule set_calibration_stored)
  then have "deep_frozen (calibration s')"
    using assms(2) by (rule deepFreeze_deep_frozen(1))
  then show ?thesis
    using deepFreeze_content(1) [OF stored] frozen_assign by blast
qed

lemma set_calibration_default:
  "set_calibration kFakeCalibration default_store = Inr default_store"
  by (simp add: set_calibration_result [OF deepFreeze_placeholder] ensureConfigChangeEvent_def
      default_store_def)

theorem calibration_frozen_witness:
  "set_calibration kFakeCalibration default_store = Inr default_store
   \<and> no_frozen_gap kFakeCalibration
   \<and> deep_frozen (calibration default_store)
   \<and> content (calibration default_store) = content kFakeCalibration
   \<and> (\<forall>strict path x.
          assign_path strict (calibration default_store) path x = Inl TypeError
          \<or> assign_path strict (calibration default_store) path x = Inr (calibration default_store))"
proof -
  have gap: "no_frozen_gap kFakeCalibration"
    by (simp add: kFakeCalibration_def)
  show ?thesis
    using calibration_frozen [OF set_calibration_default gap] set_calibration_default gap
    by blast
qed

text \<open>
  C5 as stated fails for \<^verbatim>\<open>{ lens: Object.freeze({ pitch: { value: 45 } }) }\<close>: the
  setter freezes the record, finds \<^verbatim>\<open>lens\<close> frozen and does not look below it, so the
  object at \<^verbatim>\<open>lens.pitch\<close> stays as it was and
  \<^verbatim>\<open>store.calibration.lens.pitch.value = 50\<close> changes the stored record.
\<close>

theorem calibration_prefrozen_mutable:
  "set_calibration prefrozen_record default_store =
     Inr (default_store\<lparr>backing := (backing default_store)\<lparr>priv_calibration :=
       VObject True [(''lens'', VObject True [(''pitch'',
         VObject False [(''value'', VNumber (Fin 45))])])]\<rparr>\<rparr>)
   \<and> \<not> deep_frozen
       (VObject True [(''lens'', VObject True [(''pitch'',
         VObject False [(''value'', VNumber (Fin 45))])])])
   \<and> assign_path True
       (VObject True [(''lens'', VObject True [(''pitch'',
         VObject False [(''value'', VNumber (Fin 45))])])])
       [''lens'', ''pitch'', ''value''] (VNumber (Fin 50)) =
     Inr (VObject True [(''lens'', VObject True [(''pitch'',
         VObject False [(''value'', VNumber (Fin 50))])])])"
  by (simp add: set_calibration_def prefrozen_record_def and_then_Inr
      ensureConfigChangeEvent_def default_store_def)

section \<open>Change notification\<close>

lemma checkpoint_idle: "microtasks s = 0 \<Longrightarrow> checkpoint s = s"
  by (subst checkpoint.simps) simp

lemma checkpoint_one:
  assumes "microtasks s = Suc 0"
  shows "checkpoint s =
    s\<lparr>microtasks := 0, delivered := delivered s @ map (\<lambda>l. (l, backing s)) (listeners s),
      pending := True\<rparr>"
proof -
  have "checkpoint s = checkpoint (fireChanged True (s\<lparr>microtasks := 0\<rparr>))"
    using assms by (subst checkpoint.simps) simp
  also have "\<dots> = fireChanged True (s\<lparr>microtasks := 0\<rparr>)"
    by (rule checkpoint_idle) (simp add: fireChanged_def dispatchEvent_def)
  finally show ?thesis
    by (simp add: fireChanged_def dispatchEvent_def)
qed

lemma ensure_fields:
  "backing (ensureConfigChangeEvent s) = backing s"
  "listeners (ensureConfigChangeEvent s) = listeners s"
  "delivered (ensureConfigChangeEvent s) = delivered s"
  "console (ensureConfigChangeEvent s) = console s"
  "\<not> pending (ensureConfigChangeEvent s)"
  "microtasks (ensureConfigChangeEvent s) = (if pending s then Suc (microtasks s) else microtasks s)"
  by (simp_all add: ensureConfigChangeEvent_def)

lemma mutate_cases:
  assumes "mutate m s = Inr s'"
  obtains b where "s' = ensureConfigChangeEvent (s\<lparr>backing := b\<rparr>)"
  using assms
  by (cases m) (auto simp: setter_defs set_calibration_def and_then_def split: sum.splits)

lemma mutate_fields:
  assumes "mutate m s = Inr s'"
  shows "listeners s' = listeners s" and "delivered s' = delivered s"
    and "console s' = console s" and "\<not> pending s'"
    and "microtasks s' = (if pending s then Suc (microtasks s) else microtasks s)"
  using assms by (auto elim!: mutate_cases simp: ensure_fields)

lemma mutate_succeeds:
  assumes "m \<noteq> SetCalibration VNull"
  shows "\<exists>s'. mutate m s = Inr s'"
proof (cases m)
  case (SetCalibration v)
  with assms have "v \<noteq> VNull"
    by simp
  then obtain v' where "deepFreeze v = Inr v'"
    using deepFreeze_succeeds(1) by blast
  with SetCalibration show ?thesis
    by (simp add: set_calibration_def and_then_Inr)
qed simp_all

lemma run_sync_fields:
  assumes "in_turn s"
  shows "in_turn (run_sync ms s)" and "listeners (run_sync ms s) = listeners s"
    and "delivered (run_sync ms s) = delivered s"
  using assms
proof (induction ms arbitrary: s)
  case Nil
  {
    case 1 then show ?case by simp
  next
    case 2 then show ?case by simp
  next
    case 3 then show ?case by simp
  }
next
  case (Cons m ms)
  {
    case 1
    show ?case
    proof (cases "mutate m s")
      case (Inl e)
      with 1 show ?thesis by simp
    next
      case (Inr s')
      with 1 have "in_turn s'"
        by (auto simp: in_turn_def mutate_fields split: if_splits)
      with Inr Cons.IH(1) show ?thesis by simp
    qed
  next
    case 2
    show ?case
    proof (cases "mutate m s")
      case (Inl e)
      then show ?thesis by simp
    next
      case (Inr s')
      with 2 have "in_turn s'"
        by (auto simp: in_turn_def mutate_fields split: if_splits)
      with Inr Cons.IH(2) show ?thesis by (simp add: mutate_fields)
    qed
  next
    case 3
    show ?case
    proof (cases "mutate m s")
      case (Inl e)
      then show ?thesis by simp
    next
      case (Inr s')
      with 3 have "in_turn s'"
        by (auto simp: in_turn_def mutate_fields split: if_splits)
      with Inr Cons.IH(3) show ?thesis by (simp add: mutate_fields)
    qed
  }
qed


lemma settled_in_turn: "settled s \<Longrightarrow> in_turn s"
  by (simp add: settled_def in_turn_def)

lemma turn_result:
  assumes "settled s"
  shows "settled (turn ms s)"
    and "listeners (turn ms s) = listeners s"
    and "backing (turn ms s) = backing (run_sync ms s)"
    and "delivered (turn ms s) = delivered s @
      (if pending (run_sync ms s) then []
       else map (\<lambda>l. (l, backing (run_sync ms s))) (listeners s))"
proof -
  let ?r = "run_sync ms s"
  have r: "in_turn ?r" "listeners ?r = listeners s" "delivered ?r = delivered s"
    using run_sync_fields [OF settled_in_turn [OF assms]] by simp_all
  have "settled (turn ms s) \<and> listeners (turn ms s) = listeners s
    \<and> backing (turn ms s) = backing ?r
    \<and> delivered (turn ms s) = delivered s @
      (if pending ?r then [] else map (\<lambda>l. (l, backing ?r)) (listeners s))"
  proof (cases "pending ?r")
    case True
    with r(1) have "microtasks ?r = 0"
      by (simp add: in_turn_def)
    then have "turn ms s = ?r"
      by (simp add: turn_def checkpoint_idle)
    with True r \<open>microtasks ?r = 0\<close> show ?thesis
      by (simp add: settled_def)
  next
    case False
    with r(1) have "microtasks ?r = Suc 0"
      by (simp add: in_turn_def)
    then have "turn ms s = ?r\<lparr>microtasks := 0,
        delivered := delivered ?r @ map (\<lambda>l. (l, backing ?r)) (listeners ?r), pending := True\<rparr>"
      unfolding turn_def by (rule checkpoint_one)
    with False r show ?thesis
      by (simp add: settled_def)
  qed
  then show "settled (turn ms s)"
    and "listeners (turn ms s) = listeners s"
    and "backing (turn ms s) = backing (run_sync ms s)"
    and "delivered (turn ms s) = delivered s @
      (if pending (run_sync ms s) then []
       else map (\<lambda>l. (l, backing (run_sync ms s))) (listeners s))"
    by simp_all
qed

lemma turn_single:
  assumes "settled s" and "m \<noteq> SetCalibration VNull"
  shows "delivered (turn [m] s) =
    delivered s @ map (\<lambda>l. (l, backing (turn [m] s))) (listeners s)"
proof -
  obtain s' where s': "mutate m s = Inr s'"
    using mutate_succeeds [OF assms(2)] by blast
  then have "\<not> pending (run_sync [m] s)"
    by (simp add: mutate_fields)
  then show ?thesis
    using turn_result(3,4) [OF assms(1), of "[m]"] by simp
qed

lemma one_by_one_snoc: "one_by_one (ms @ [m]) s = turn [m] (one_by_one ms s)"
  by (simp add: one_by_one_def run_turns_def)

lemma one_by_one_settled:
  assumes "settled s"
  shows "settled (one_by_one ms s) \<and> listeners (one_by_one ms s) = listeners s"
proof (induction ms rule: rev_induct)
  case Nil
  show ?case
    using assms by (simp add: one_by_one_def run_turns_def)
next
  case (snoc m ms)
  then show ?case
    by (simp add: one_by_one_snoc turn_result)
qed

lemma filter_listener:
  assumes "distinct ls" and "l \<in> set ls"
  shows "filter (\<lambda>e. fst e = l) (map (\<lambda>l'. (l', b)) ls) = [(l, b)]"
  using assms
proof (induction ls)
  case Nil
  then show ?case by simp
next
  case (Cons a ls)
  have absent: "filter (\<lambda>e. fst e = l) (map (\<lambda>l'. (l', b)) ls) = []" if "l \<notin> set ls"
    using that by (induction ls) auto
  from Cons show ?case
    by (cases "a = l") (auto simp: absent)
qed

text \<open>
  C1 (as amended). Let an observer be subscribed to a store on which no notification is
  waiting. After \<open>N\<close> mutations, each made in a turn of its own (a microtask checkpoint
  lies between two of them) and none of them throwing, the observer has been called
  exactly \<open>N\<close> more times, and at its \<open>k\<close>-th call it finds the store as the \<open>k\<close>-th mutation
  left it.
\<close>

theorem each_mutation_notified:
  assumes "settled s" and "distinct (listeners s)" and "l \<in> set (listeners s)"
    and "SetCalibration VNull \<notin> set ms"
  shows "seen_by l (one_by_one ms s) =
      seen_by l s @ map (\<lambda>k. backing (one_by_one (take (Suc k) ms) s)) [0..<length ms]
    \<and> length (seen_by l (one_by_one ms s)) = length (seen_by l s) + length ms"
proof -
  have "seen_by l (one_by_one ms s) =
      seen_by l s @ map (\<lambda>k. backing (one_by_one (take (Suc k) ms) s)) [0..<length ms]"
    using assms(4)
  proof (induction ms rule: rev_induct)
    case Nil
    show ?case
      by (simp add: one_by_one_def run_turns_def)
  next
    case (snoc m ms)
    let ?s1 = "one_by_one ms s"
    have s1: "settled ?s1" "listeners ?s1 = listeners s"
      using one_by_one_settled [OF assms(1)] by simp_all
    from snoc.prems have m: "m \<noteq> SetCalibration VNull" and ms: "SetCalibration VNull \<notin> set ms"
      by auto
    have "delivered (turn [m] ?s1) =
        delivered ?s1 @ map (\<lambda>l'. (l', backing (turn [m] ?s1))) (listeners s)"
      using turn_single [OF s1(1) m] s1(2) by simp
    then have step: "seen_by l (turn [m] ?s1) = seen_by l ?s1 @ [backing (turn [m] ?s1)]"
      by (simp add: seen_by_def filter_listener [OF assms(2,3)])
    have old: "map (\<lambda>k. backing (one_by_one (take (Suc k) (ms @ [m])) s)) [0..<length ms] =
        map (\<lambda>k. backing (one_by_one (take (Suc k) ms) s)) [0..<length ms]"
      by (rule map_cong) simp_all
    show ?case
      using snoc.IH [OF ms] step old by (simp add: one_by_one_snoc)
  qed
  then show ?thesis
    by simp
qed

lemma checkpoint_default:
  "checkpoint default_store = default_store\<lparr>microtasks := 0, pending := True\<rparr>"
proof -
  have "microtasks default_store = Suc 0"
    by (simp add: default_store_def)
  then show ?thesis
    by (simp add: checkpoint_one) (simp add: default_store_def)
qed

lemma observed_store_eq:
  "observed_store = default_store\<lparr>microtasks := 0, pending := True, listeners := [0]\<rparr>"
  by (simp add: observed_store_def checkpoint_default addEventListener_def)
    (simp add: default_store_def)

theorem getters_pure_witness:
  "backing observed_store = backing default_store
   \<and> snd (read FramebufferWidth default_store) = default_store
   \<and> fst (read FramebufferWidth (snd (read FramebufferWidth default_store))) = Inr (Fin 512)
   \<and> fst (read FramebufferWidth observed_store) = Inr (Fin 512)"
proof -
  have same: "backing observed_store = backing default_store"
    by (simp add: observed_store_eq)
  show ?thesis
    using getters_pure [of FramebufferWidth default_store observed_store] same
    by (simp add: default_framebufferWidth)
qed

lemma observed_store_settled:
  "settled observed_store" "distinct (listeners observed_store)"
  "0 \<in> set (listeners observed_store)" "seen_by 0 observed_store = []"
  by (simp_all add: observed_store_eq settled_def seen_by_def default_store_def)

theorem each_mutation_notified_witness:
  "settled observed_store \<and> distinct (listeners observed_store)
   \<and> 0 \<in> set (listeners observed_store)
   \<and> SetCalibration VNull \<notin> set [SetTileHeight (VNumber (Fin 100)), SetNumViews (VNumber (Fin 4))]
   \<and> length (seen_by 0 (one_by_one
        [SetTileHeight (VNumber (Fin 100)), SetNumViews (VNumber (Fin 4))] observed_store)) = 2"
proof -
  have ok: "SetCalibration VNull \<notin>
      set [SetTileHeight (VNumber (Fin 100)), SetNumViews (VNumber (Fin 4))]"
    by simp
  show ?thesis
    using each_mutation_notified [OF observed_store_settled(1,2,3) ok] observed_store_settled ok
    by simp
qed

text \<open>
  C1 as stated fails when two setters are called one after the other in the same turn:
  the second call finds the promise resolved and does nothing more, and the one queued
  reaction calls the observer once, after both mutations.
\<close>

theorem rapid_mutations_coalesced:
  "settled observed_store \<and> seen_by 0 observed_store = []
   \<and> length (seen_by 0 (turn
        [SetTileHeight (VNumber (Fin 100)), SetTileHeight (VNumber (Fin 200))]
        observed_store)) = 1
   \<and> map priv_tileHeight (seen_by 0 (turn
        [SetTileHeight (VNumber (Fin 100)), SetTileHeight (VNumber (Fin 200))]
        observed_store)) = [VNumber (Fin 200)]"
proof -
  let ?ms = "[SetTileHeight (VNumber (Fin 100)), SetTileHeight (VNumber (Fin 200))]"
  have r: "\<not> pending (run_sync ?ms observed_store)"
    "priv_tileHeight (backing (run_sync ?ms observed_store)) = VNumber (Fin 200)"
    by (simp_all add: setter_defs ensure_fields)
  have "delivered (turn ?ms observed_store) = [(0, backing (run_sync ?ms observed_store))]"
    using turn_result(4) [OF observed_store_settled(1), of ?ms] r(1)
    by (simp add: observed_store_eq) (simp add: default_store_def)
  then show ?thesis
    using r(2) observed_store_settled by (simp add: seen_by_def)
qed

section \<open>A message with several devices\<close>




end
